theory Spec2Isabelle
  imports Main "HOL-Library.AList"
begin

section \<open>JavaScript values\<close>

text \<open>
  The values the server handles: what \<^verbatim>\<open>JSON.parse\<close> can return, plus
  \<^verbatim>\<open>undefined\<close> (an absent property, a missing argument) and BigInt, the one value of
  the model that \<^verbatim>\<open>JSON.stringify\<close> refuses. Numbers are integers: the server
  never computes with fractions. An object is the list of its own properties in insertion
  order.
\<close>

datatype jsval =
    JUndefined
  | JNull
  | JBool bool
  | JNum int
  | JStr string
  | JBigInt int
  | JArr "jsval list"
  | JObj "(string \<times> jsval) list"

datatype exn = Error string | TypeError string | SyntaxError string

fun error_message :: "exn \<Rightarrow> string" where
  "error_message (Error m) = m"
| "error_message (TypeError m) = m"
| "error_message (SyntaxError m) = m"

text \<open>The outcome of a call that may throw.\<close>

datatype 'a completion = Normal 'a | Throw exn

text \<open>Truthiness, as \<^verbatim>\<open>!x\<close>, \<^verbatim>\<open>||\<close> and \<^verbatim>\<open>if (x)\<close> test it.\<close>

fun truthy :: "jsval \<Rightarrow> bool" where
  "truthy JUndefined = False"
| "truthy JNull = False"
| "truthy (JBool b) = b"
| "truthy (JNum n) = (n \<noteq> 0)"
| "truthy (JStr s) = (s \<noteq> [])"
| "truthy (JBigInt n) = (n \<noteq> 0)"
| "truthy (JArr xs) = True"
| "truthy (JObj kvs) = True"

fun typeof :: "jsval \<Rightarrow> string" where
  "typeof JUndefined = ''undefined''"
| "typeof JNull = ''object''"
| "typeof (JBool b) = ''boolean''"
| "typeof (JNum n) = ''number''"
| "typeof (JStr s) = ''string''"
| "typeof (JBigInt n) = ''bigint''"
| "typeof (JArr xs) = ''object''"
| "typeof (JObj kvs) = ''object''"

text \<open>
  \<^verbatim>\<open>a || b\<close> on values.
\<close>

definition js_or :: "jsval \<Rightarrow> jsval \<Rightarrow> jsval" where
  "js_or a b = (if truthy a then a else b)"

text \<open>
  Property read \<^verbatim>\<open>v.k\<close> for a named (non-index) property \<open>k\<close>: an absent property
  reads as \<^verbatim>\<open>undefined\<close>. Every read in the modelled code is of an object or sits
  behind a truthiness guard, so the TypeError of reading a property of
  \<^verbatim>\<open>null\<close> or \<^verbatim>\<open>undefined\<close> is never reached.
\<close>

fun get_prop :: "jsval \<Rightarrow> string \<Rightarrow> jsval" where
  "get_prop (JObj kvs) k = (case map_of kvs k of None \<Rightarrow> JUndefined | Some v \<Rightarrow> v)"
| "get_prop v k = JUndefined"

text \<open>Decimal numerals, for array indices as property names and for JSON text.\<close>

fun show_nat :: "nat \<Rightarrow> string" where
  "show_nat n = (if n < 10 then [''0123456789'' ! n]
                 else show_nat (n div 10) @ [''0123456789'' ! (n mod 10)])"

declare show_nat.simps [simp del]

definition show_int :: "int \<Rightarrow> string" where
  "show_int i = (if i < 0 then CHR ''-'' # show_nat (nat (- i)) else show_nat (nat i))"

text \<open>
  The own enumerable properties an object spread \<^verbatim>\<open>{...v}\<close> copies: those of an
  object, the indexed elements of an array, the indexed characters of a string, and
  nothing for the other values.
\<close>

fun own_entries :: "jsval \<Rightarrow> (string \<times> jsval) list" where
  "own_entries (JObj kvs) = kvs"
| "own_entries (JArr xs) = zip (map show_nat [0..<length xs]) xs"
| "own_entries (JStr s) = zip (map show_nat [0..<length s]) (map (\<lambda>c. JStr [c]) s)"
| "own_entries v = []"

text \<open>
  Writing properties into an object in order: a key already present keeps its position
  and takes the new value, a new key goes to the end (object literals with spread,
  \<^verbatim>\<open>Object.assign\<close>, \<^verbatim>\<open>Map.set\<close>).
\<close>

definition assign_all :: "('k \<times> 'v) list \<Rightarrow> ('k \<times> 'v) list \<Rightarrow> ('k \<times> 'v) list" where
  "assign_all target source = fold (\<lambda>(k, v). AList.update k v) source target"

subsection \<open>The host's JSON.stringify\<close>

definition hex_digit :: "nat \<Rightarrow> char" where
  "hex_digit d = ''0123456789abcdef'' ! (d mod 16)"

definition escape_char :: "char \<Rightarrow> string" where
  "escape_char c =
     (if c = CHR 0x22 then [CHR 0x5C, CHR 0x22]
      else if c = CHR 0x5C then [CHR 0x5C, CHR 0x5C]
      else if c = CHR 0x08 then [CHR 0x5C, CHR ''b'']
      else if c = CHR 0x0C then [CHR 0x5C, CHR ''f'']
      else if c = CHR 0x0A then [CHR 0x5C, CHR ''n'']
      else if c = CHR 0x0D then [CHR 0x5C, CHR ''r'']
      else if c = CHR 0x09 then [CHR 0x5C, CHR ''t'']
      else if (of_char c :: nat) < 32
        then [CHR 0x5C, CHR ''u'', CHR ''0'', CHR ''0'',
              hex_digit ((of_char c :: nat) div 16), hex_digit (of_char c)]
      else [c])"

definition quote :: "string \<Rightarrow> string" where
  "quote s = CHR 0x22 # concat (map escape_char s) @ [CHR 0x22]"

fun commas :: "string list \<Rightarrow> string" where
  "commas [] = []"
| "commas [x] = x"
| "commas (x # y # ys) = x @ CHR '','' # commas (y # ys)"

text \<open>A BigInt anywhere in the value makes \<^verbatim>\<open>JSON.stringify\<close> throw.\<close>

fun has_bigint :: "jsval \<Rightarrow> bool" where
  "has_bigint (JBigInt n) = True"
| "has_bigint (JArr xs) = (\<exists>x \<in> set xs. has_bigint x)"
| "has_bigint (JObj kvs) = (\<exists>kv \<in> set kvs. has_bigint (snd kv))"
| "has_bigint v = False"

text \<open>
  The text of a value; \<open>None\<close> is \<^verbatim>\<open>undefined\<close>: such a property is left out of
  its object, and such an array element is written \<^verbatim>\<open>null\<close>.
\<close>

fun json_text :: "jsval \<Rightarrow> string option" where
  "json_text JUndefined = None"
| "json_text JNull = Some ''null''"
| "json_text (JBool b) = Some (if b then ''true'' else ''false'')"
| "json_text (JNum n) = Some (show_int n)"
| "json_text (JStr s) = Some (quote s)"
| "json_text (JBigInt n) = None"
| "json_text (JArr xs) =
     Some (''['' @ commas (map (\<lambda>x. case json_text x of None \<Rightarrow> ''null'' | Some t \<Rightarrow> t) xs)
           @ '']'')"
| "json_text (JObj kvs) =
     Some (''{'' @ commas (concat (map (\<lambda>(k, v). case json_text v of None \<Rightarrow> []
                                       | Some t \<Rightarrow> [quote k @ CHR '':'' # t]) kvs))
           @ ''}'')"

definition JSON_stringify :: "jsval \<Rightarrow> string option completion" where
  "JSON_stringify v =
     (if has_bigint v then Throw (TypeError ''Do not know how to serialize a BigInt'')
      else Normal (json_text v))"

text \<open>
  \<^verbatim>\<open>JSON.parse\<close> is the host's: a parameter of the model, \<open>None\<close> when it throws
  its SyntaxError.
\<close>

type_synonym json_parser = "string \<Rightarrow> jsval option"

section \<open>The message protocol\<close>

definition SYSTEM_PING :: string where "SYSTEM_PING = ''system.ping''"
definition SYSTEM_PONG :: string where "SYSTEM_PONG = ''system.pong''"
definition SYSTEM_INFO :: string where "SYSTEM_INFO = ''system.info''"
definition SYSTEM_ERROR :: string where "SYSTEM_ERROR = ''system.error''"
definition SYSTEM_AUTH :: string where "SYSTEM_AUTH = ''system.auth''"
definition SYSTEM_AUTH_RESPONSE :: string where "SYSTEM_AUTH_RESPONSE = ''system.auth_response''"
definition SYSTEM_REGISTER :: string where "SYSTEM_REGISTER = ''system.register''"
definition SYSTEM_REGISTER_RESPONSE :: string where
  "SYSTEM_REGISTER_RESPONSE = ''system.register_response''"

definition INVALID_MESSAGE :: int where "INVALID_MESSAGE = 100"
definition INVALID_TYPE :: int where "INVALID_TYPE = 101"
definition INVALID_FORMAT :: int where "INVALID_FORMAT = 102"
definition UNAUTHORIZED :: int where "UNAUTHORIZED = 200"
definition FORBIDDEN :: int where "FORBIDDEN = 201"
definition NOT_FOUND :: int where "NOT_FOUND = 300"
definition SERVER_ERROR :: int where "SERVER_ERROR = 500"

record protocol =
  version :: string
  validateMessages :: bool

text \<open>\<^verbatim>\<open>new MessageProtocol()\<close>, as the connection manager and the server build it.\<close>

definition MessageProtocol :: protocol where
  "MessageProtocol = \<lparr>version = ''1.0'', validateMessages = True\<rparr>"

datatype validation = Valid | Invalid string

text \<open>
  An unknown message type is logged and accepted, so the table of known types does not
  enter the result.
\<close>

definition validateMessage :: "jsval \<Rightarrow> validation" where
  "validateMessage message =
     (if \<not> truthy message \<or> typeof message \<noteq> ''object''
        then Invalid ''Message must be an object''
      else if \<not> truthy (get_prop message ''type'')
        then Invalid ''Message type is required''
      else Valid)"

text \<open>
  A raw message is a Buffer or a string; \<^verbatim>\<open>toString('utf8')\<close> of a Buffer is the
  text it holds. The result is the message, or \<^verbatim>\<open>null\<close>.
\<close>

datatype raw = RawBuffer string | RawText string

fun raw_string :: "raw \<Rightarrow> string" where
  "raw_string (RawBuffer b) = b"
| "raw_string (RawText t) = t"

definition parseMessage :: "protocol \<Rightarrow> json_parser \<Rightarrow> raw \<Rightarrow> jsval" where
  "parseMessage p JSON_parse rawMessage =
     (let messageString = raw_string rawMessage
      in case JSON_parse messageString of
           None \<Rightarrow> JNull
         | Some message \<Rightarrow>
             if validateMessages p \<and> validateMessage message \<noteq> Valid then JNull
             else message)"

text \<open>A parameter with default \<^verbatim>\<open>{}\<close>: the default applies to \<^verbatim>\<open>undefined\<close> only.\<close>

definition default_object :: "jsval \<Rightarrow> jsval" where
  "default_object v = (if v = JUndefined then JObj [] else v)"

text \<open>
  \<^verbatim>\<open>{ type, version, timestamp: Date.now(), data, ...metadata }\<close>, with the defaults
  \<^verbatim>\<open>data = {}\<close> and \<^verbatim>\<open>metadata = {}\<close>; the clock value is passed in.
\<close>

definition createMessage :: "protocol \<Rightarrow> int \<Rightarrow> jsval \<Rightarrow> jsval \<Rightarrow> jsval \<Rightarrow> jsval" where
  "createMessage p now type data metadata =
     JObj (assign_all
             [(''type'', type), (''version'', JStr (version p)),
              (''timestamp'', JNum now), (''data'', default_object data)]
             (own_entries (default_object metadata)))"

definition createErrorMessage :: "protocol \<Rightarrow> int \<Rightarrow> int \<Rightarrow> string \<Rightarrow> jsval \<Rightarrow> jsval" where
  "createErrorMessage p now code message details =
     createMessage p now (JStr SYSTEM_ERROR)
       (JObj [(''code'', JNum code), (''message'', JStr message),
              (''details'', default_object details)])
       JUndefined"

text \<open>The serialized text, or \<open>None\<close> for the \<^verbatim>\<open>null\<close> of a failed serialization
  and the \<^verbatim>\<open>undefined\<close> that \<^verbatim>\<open>JSON.stringify(undefined)\<close> returns.\<close>

definition serializeMessage :: "jsval \<Rightarrow> string option" where
  "serializeMessage message =
     (case JSON_stringify message of Throw e \<Rightarrow> None | Normal r \<Rightarrow> r)"


section \<open>Connections, sockets and the observable trace\<close>

text \<open>
  A transport is the peer's socket. The model keeps what the server reads of it: its
  \<^verbatim>\<open>readyState\<close>, and whether a call of \<^verbatim>\<open>send\<close> or \<^verbatim>\<open>close\<close> throws
  (the environment decides; the server wraps both calls in \<^verbatim>\<open>try\<close>).
\<close>

record socket =
  sock_id :: nat
  readyState :: nat
  send_throws :: bool
  close_throws :: bool

record conn_stats =
  messagesReceived :: nat
  messagesSent :: nat
  errors :: nat

record connection =
  cid :: string
  socket :: socket
  ipAddress :: jsval
  userAgent :: jsval
  connected :: int
  lastActivity :: int
  isAuthenticated :: bool
  clientInfo :: "(string \<times> jsval) list"
  stats :: conn_stats

text \<open>
  What the server does to the outside, in order: calls of \<^verbatim>\<open>socket.send\<close> (with
  its argument) and \<^verbatim>\<open>socket.close\<close>, events emitted, and invocations of plugin
  hooks and of registered handlers. Log lines are left out.
\<close>

datatype emitter = ConnectionManager | MessageHandler | MCPServer

datatype event =
    SocketSend nat "string option"
  | SocketClose nat
  | Emit emitter string jsval
  | HookCall string string
  | HandlerCall string

text \<open>
  A plugin hook and a registered handler are functions of the host: given the clock and
  their arguments, they return a value or throw. What they do to the server through the
  handle they are given is outside the model; that they were invoked is recorded in the
  trace.
\<close>

type_synonym hook = "int \<Rightarrow> jsval list \<Rightarrow> jsval completion"

type_synonym handler = "int \<Rightarrow> jsval \<Rightarrow> jsval \<Rightarrow> jsval completion"

record plugin =
  enabled :: bool
  module :: "string \<Rightarrow> hook option"

datatype plugin_result = Result string jsval | Failure string exn

text \<open>
  The connection manager, the handler registry and the plugin registry of one server, the
  clock that \<^verbatim>\<open>Date.now()\<close> reads, and the trace. The maps are JavaScript Maps:
  association lists in insertion order. The clock stands still while the server reacts to
  one event and advances between events.
\<close>

record server =
  connections :: "(string \<times> connection) list"
  maxConnections :: int
  idleTimeout :: int
  authRequired :: bool
  tokenExpiration :: int
  clock :: int
  plugins :: "(string \<times> plugin) list"
  handlers :: "(string \<times> handler) list"
  trace :: "event list"

definition emit :: "event \<Rightarrow> server \<Rightarrow> server" where
  "emit e s = s\<lparr>trace := trace s @ [e]\<rparr>"

text \<open>A write to the connection object stored under an id.\<close>

definition update_connection :: "string \<Rightarrow> (connection \<Rightarrow> connection) \<Rightarrow> server \<Rightarrow> server" where
  "update_connection i f s = s\<lparr>connections := AList.map_entry i f (connections s)\<rparr>"

definition count_error :: "connection \<Rightarrow> connection" where
  "count_error c = c\<lparr>stats := (stats c)\<lparr>errors := errors (stats c) + 1\<rparr>\<rparr>"

section \<open>ConnectionManager\<close>

record request =
  remoteAddress :: jsval
  user_agent :: jsval

record info =
  info_ipAddress :: jsval
  info_userAgent :: jsval
  info_req :: "request option"

text \<open>
  \<open>addConnection\<close>; the id that \<^verbatim>\<open>crypto.randomUUID()\<close> would return is the
  argument \<open>newId\<close>.
\<close>

definition addConnection :: "socket \<Rightarrow> info \<Rightarrow> string \<Rightarrow> server \<Rightarrow> string option \<times> server" where
  "addConnection sock peer newId s =
     (if int (length (connections s)) \<ge> maxConnections s then
        let errorMessage = createErrorMessage MessageProtocol (clock s) SERVER_ERROR
                             ''Maximum connections reached'' (JObj []);
            s1 = emit (SocketSend (sock_id sock) (serializeMessage errorMessage)) s
        in (None, if send_throws sock then s1 else emit (SocketClose (sock_id sock)) s1)
      else
        let connection = \<lparr>
              cid = newId,
              socket = sock,
              ipAddress = js_or (info_ipAddress peer)
                (case info_req peer of Some r \<Rightarrow> remoteAddress r | None \<Rightarrow> JStr ''unknown''),
              userAgent = js_or (info_userAgent peer)
                (case info_req peer of Some r \<Rightarrow> user_agent r | None \<Rightarrow> JStr ''unknown''),
              connected = clock s,
              lastActivity = clock s,
              isAuthenticated = (\<not> authRequired s),
              clientInfo = [],
              stats = \<lparr>messagesReceived = 0, messagesSent = 0, errors = 0\<rparr>\<rparr>;
            s1 = s\<lparr>connections := AList.update newId connection (connections s)\<rparr>
        in (Some newId,
            emit (Emit ConnectionManager ''connection''
                    (JObj [(''id'', JStr newId), (''ipAddress'', ipAddress connection),
                           (''userAgent'', userAgent connection),
                           (''timestamp'', JNum (connected connection))])) s1))"

text \<open>
  \<open>removeConnection\<close>. A throwing \<^verbatim>\<open>close\<close> is caught and logged, so it changes
  nothing further.
\<close>

definition removeConnection :: "string \<Rightarrow> server \<Rightarrow> bool \<times> server" where
  "removeConnection i s =
     (case map_of (connections s) i of
        None \<Rightarrow> (False, s)
      | Some connection \<Rightarrow>
          let s1 = (if readyState (socket connection) = 1
                    then emit (SocketClose (sock_id (socket connection))) s else s);
              s2 = s1\<lparr>connections := AList.delete i (connections s1)\<rparr>
          in (True, emit (Emit ConnectionManager ''disconnection'' (JObj [(''id'', JStr i)])) s2))"

definition sendMessage :: "string \<Rightarrow> jsval \<Rightarrow> jsval \<Rightarrow> server \<Rightarrow> bool \<times> server" where
  "sendMessage connectionId type data s =
     (case map_of (connections s) connectionId of
        None \<Rightarrow> (False, s)
      | Some connection \<Rightarrow>
          let message = createMessage MessageProtocol (clock s) type (default_object data)
                          JUndefined
          in (case serializeMessage message of
                None \<Rightarrow> (False, s)
              | Some serializedMessage \<Rightarrow>
                  if serializedMessage = [] then (False, s)
                  else
                    let s1 = emit (SocketSend (sock_id (socket connection))
                                     (Some serializedMessage)) s
                    in if send_throws (socket connection)
                       then (False, update_connection connectionId count_error s1)
                       else (True, update_connection connectionId
                               (\<lambda>c. c\<lparr>lastActivity := clock s,
                                      stats := (stats c)\<lparr>messagesSent :=
                                                 messagesSent (stats c) + 1\<rparr>\<rparr>)
                               s1)))"

definition sendError :: "string \<Rightarrow> int \<Rightarrow> string \<Rightarrow> jsval \<Rightarrow> server \<Rightarrow> bool \<times> server" where
  "sendError connectionId code message details s =
     sendMessage connectionId (JStr SYSTEM_ERROR)
       (JObj [(''code'', JNum code), (''message'', JStr message),
              (''details'', default_object details)]) s"

definition handleAuthRequest :: "string \<Rightarrow> jsval \<Rightarrow> server \<Rightarrow> server" where
  "handleAuthRequest connectionId message s =
     (let s1 = update_connection connectionId (\<lambda>c. c\<lparr>isAuthenticated := True\<rparr>) s;
          s2 = snd (sendMessage connectionId (JStr SYSTEM_AUTH_RESPONSE)
                      (JObj [(''success'', JBool True), (''timestamp'', JNum (clock s)),
                             (''expiresAt'', JNum (clock s + tokenExpiration s))]) s1)
      in emit (Emit ConnectionManager ''authenticated''
                 (JObj [(''connectionId'', JStr connectionId)])) s2)"

definition handleClientRegistration :: "string \<Rightarrow> jsval \<Rightarrow> server \<Rightarrow> server" where
  "handleClientRegistration connectionId message s =
     (let s1 = update_connection connectionId
                 (\<lambda>c. c\<lparr>clientInfo := assign_all (clientInfo c)
                          (own_entries (js_or (get_prop message ''data'') (JObj [])))\<rparr>) s;
          s2 = snd (sendMessage connectionId (JStr SYSTEM_REGISTER_RESPONSE)
                      (JObj [(''success'', JBool True), (''id'', JStr connectionId),
                             (''timestamp'', JNum (clock s))]) s1)
      in emit (Emit ConnectionManager ''clientRegistered''
                 (JObj [(''connectionId'', JStr connectionId),
                        (''clientInfo'',
                           (case map_of (connections s2) connectionId of
                              Some c \<Rightarrow> JObj (clientInfo c) | None \<Rightarrow> JUndefined))])) s2)"

definition handleSystemMessage :: "string \<Rightarrow> jsval \<Rightarrow> server \<Rightarrow> server" where
  "handleSystemMessage connectionId message s =
     (let t = get_prop message ''type'' in
      if t = JStr SYSTEM_PING then
        snd (sendMessage connectionId (JStr SYSTEM_PONG)
               (JObj [(''timestamp'', JNum (clock s)), (''echo'', get_prop message ''data'')]) s)
      else if t = JStr SYSTEM_AUTH then handleAuthRequest connectionId message s
      else if t = JStr SYSTEM_REGISTER then handleClientRegistration connectionId message s
      else emit (Emit ConnectionManager ''unknownMessage''
                   (JObj [(''connectionId'', JStr connectionId), (''message'', message)])) s)"


text \<open>
  \<open>broadcastMessage\<close>, over a snapshot of the ids; \<open>sendMessage\<close> neither adds
  nor deletes an entry, so the snapshot is the live iteration.
\<close>

fun broadcast_loop ::
  "jsval \<Rightarrow> jsval \<Rightarrow> (connection \<Rightarrow> bool) option \<Rightarrow> string list \<Rightarrow> nat \<Rightarrow> server \<Rightarrow> nat \<times> server" where
  "broadcast_loop type data filt [] count s = (count, s)"
| "broadcast_loop type data filt (i # ids) count s =
     (case map_of (connections s) i of
        None \<Rightarrow> broadcast_loop type data filt ids count s
      | Some connection \<Rightarrow>
          if (case filt of Some f \<Rightarrow> \<not> f connection | None \<Rightarrow> False)
          then broadcast_loop type data filt ids count s
          else (case sendMessage i type data s of
                  (True, s1) \<Rightarrow> broadcast_loop type data filt ids (count + 1) s1
                | (False, s1) \<Rightarrow> broadcast_loop type data filt ids count s1))"

definition broadcastMessage ::
  "jsval \<Rightarrow> jsval \<Rightarrow> (connection \<Rightarrow> bool) option \<Rightarrow> server \<Rightarrow> nat \<times> server" where
  "broadcastMessage type data filt s =
     broadcast_loop type (default_object data) filt (map fst (connections s)) 0 s"

text \<open>
  \<open>pingConnections\<close>: \<open>now\<close> is read once, before the loop. The loop deletes only
  the entry it is visiting, so a Map iteration visits exactly the ids present at the
  start; an id no longer present would not be visited.
\<close>

fun ping_loop :: "int \<Rightarrow> string list \<Rightarrow> server \<Rightarrow> server" where
  "ping_loop now [] s = s"
| "ping_loop now (i # ids) s =
     (case map_of (connections s) i of
        None \<Rightarrow> ping_loop now ids s
      | Some connection \<Rightarrow>
          if now - lastActivity connection > idleTimeout s
          then ping_loop now ids (snd (removeConnection i s))
          else ping_loop now ids
                 (snd (sendMessage i (JStr SYSTEM_PING) (JObj [(''timestamp'', JNum now)]) s)))"

definition pingConnections :: "server \<Rightarrow> server" where
  "pingConnections s = ping_loop (clock s) (map fst (connections s)) s"

fun closeAll_loop :: "string list \<Rightarrow> server \<Rightarrow> server" where
  "closeAll_loop [] s = s"
| "closeAll_loop (i # ids) s = closeAll_loop ids (snd (removeConnection i s))"

definition closeAllConnections :: "server \<Rightarrow> server" where
  "closeAllConnections s = closeAll_loop (map fst (connections s)) s"

section \<open>PluginManager.callPluginMethod\<close>

text \<open>
  The loop over \<^verbatim>\<open>this.plugins.entries()\<close>: every enabled plugin whose module has the
  method is called, and its result or its exception is appended to the results.
\<close>

fun callPluginMethod_loop ::
  "string \<Rightarrow> jsval list \<Rightarrow> (string \<times> plugin) list \<Rightarrow> plugin_result list \<Rightarrow> server
     \<Rightarrow> plugin_result list \<times> server" where
  "callPluginMethod_loop methodName args [] results s = (results, s)"
| "callPluginMethod_loop methodName args ((name, plugin) # rest) results s =
     (case (if enabled plugin then module plugin methodName else None) of
        None \<Rightarrow> callPluginMethod_loop methodName args rest results s
      | Some f \<Rightarrow>
          callPluginMethod_loop methodName args rest
            (results @ [case f (clock s) args of
                          Normal result \<Rightarrow> Result name result
                        | Throw error \<Rightarrow> Failure name error])
            (emit (HookCall name methodName) s))"

definition callPluginMethod ::
  "string \<Rightarrow> jsval list \<Rightarrow> server \<Rightarrow> plugin_result list \<times> server" where
  "callPluginMethod methodName args s = callPluginMethod_loop methodName args (plugins s) [] s"

section \<open>MessageHandler\<close>

definition registerHandler :: "string \<Rightarrow> handler \<Rightarrow> server \<Rightarrow> server" where
  "registerHandler type h s = s\<lparr>handlers := AList.update type h (handlers s)\<rparr>"

text \<open>The built-in echo handler.\<close>

definition echo_handler :: handler where
  "echo_handler now message context =
     Normal (JObj [(''type'', JStr ''echo.response''),
                   (''data'', JObj [(''echo'', get_prop message ''data''),
                                    (''timestamp'', JNum now)])])"

text \<open>
  \<open>processMessage\<close>. The registry's keys are strings, so a type that is not a string
  matches no key and then has no \<^verbatim>\<open>split\<close> method: a TypeError, caught like a
  handler's exception. An \<^verbatim>\<open>error\<close> event is emitted to the listener the server
  registered.
\<close>

definition run_handler :: "string \<Rightarrow> handler \<Rightarrow> jsval \<Rightarrow> jsval \<Rightarrow> server \<Rightarrow> jsval completion \<times> server" where
  "run_handler key h message context s =
     (h (clock s) message context, emit (HandlerCall key) s)"

definition processMessage :: "jsval \<Rightarrow> jsval \<Rightarrow> server \<Rightarrow> jsval \<times> server" where
  "processMessage message context s =
     (if \<not> truthy message \<or> \<not> truthy (get_prop message ''type'') then (JNull, s)
      else
        let attempt =
          (case get_prop message ''type'' of
             JStr t \<Rightarrow>
               (case map_of (handlers s) t of
                  Some h \<Rightarrow> run_handler t h message context s
                | None \<Rightarrow>
                    let namespace = takeWhile (\<lambda>c. c \<noteq> CHR ''.'') t
                    in (case map_of (handlers s) namespace of
                          Some h \<Rightarrow> run_handler namespace h message context s
                        | None \<Rightarrow>
                            (Normal (JObj [(''type'', JStr ''error''),
                               (''data'', JObj [(''code'', JNum 404),
                                  (''message'',
                                     JStr (''No handler found for message type: '' @ t)),
                                  (''timestamp'', JNum (clock s))])]),
                             emit (Emit MessageHandler ''unhandled''
                                     (JObj [(''message'', message), (''context'', context)])) s)))
           | other \<Rightarrow> (Throw (TypeError ''message.type.split is not a function''), s))
        in (case attempt of
              (Normal response, s1) \<Rightarrow> (response, s1)
            | (Throw error, s1) \<Rightarrow>
                (JObj [(''type'', JStr ''error''),
                   (''data'', JObj [(''code'', JNum 500),
                      (''message'', JStr ''Error processing message''),
                      (''error'', JStr (error_message error)),
                      (''timestamp'', JNum (clock s))])],
                 emit (Emit MessageHandler ''error''
                         (JObj [(''message'', message), (''error'', JStr (error_message error)),
                                (''context'', context)])) s1)))"

section \<open>MCPServer.handleMessage\<close>

fun is_true_result :: "plugin_result \<Rightarrow> bool" where
  "is_true_result (Result name v) = (v = JBool True)"
| "is_true_result (Failure name e) = False"

text \<open>
  The dispatch of one envelope, run to its end: what other events do between its
  \<^verbatim>\<open>await\<close>s is not interleaved. The context is
  \<^verbatim>\<open>{connectionId, server, timestamp}\<close> without the server handle.
  \<open>callPluginMethod\<close>, \<open>processMessage\<close> and
  \<open>sendMessage\<close> catch what is thrown inside them, so within the model nothing reaches
  the \<^verbatim>\<open>catch\<close> of this function, which would answer with
  \<open>sendError connectionId 500\<close>.
\<close>

definition server_handleMessage :: "string \<Rightarrow> jsval \<Rightarrow> server \<Rightarrow> server" where
  "server_handleMessage connectionId message s =
     (let context = JObj [(''connectionId'', JStr connectionId), (''timestamp'', JNum (clock s))];
          (pluginResults, s1) = callPluginMethod ''handleMessage'' [message, context] s;
          handled = (\<exists>r \<in> set pluginResults. is_true_result r)
      in if handled then s1
         else
           let (response, s2) = processMessage message context s1;
               s3 = (if truthy response
                     then snd (sendMessage connectionId (get_prop response ''type'')
                                 (get_prop response ''data'') s2)
                     else s2)
           in emit (Emit MCPServer ''message''
                      (JObj [(''connectionId'', JStr connectionId), (''message'', message),
                             (''timestamp'', JNum (clock s)), (''response'', response)])) s3)"

section \<open>ConnectionManager.handleMessage and the socket's listeners\<close>

definition starts_with :: "string \<Rightarrow> string \<Rightarrow> bool" where
  "starts_with p t = (take (length p) t = p)"

text \<open>
  \<open>ConnectionManager.handleMessage\<close>. Its \<^verbatim>\<open>message\<close> event has one listener, set
  in the server's constructor: \<open>server_handleMessage\<close>. A type that is not a string
  has no \<^verbatim>\<open>startsWith\<close>: the TypeError leaves the function.
\<close>

definition cm_handleMessage :: "json_parser \<Rightarrow> string \<Rightarrow> raw \<Rightarrow> server \<Rightarrow> exn + server" where
  "cm_handleMessage JSON_parse connectionId data s =
     (case map_of (connections s) connectionId of
        None \<Rightarrow> Inr s
      | Some connection \<Rightarrow>
          let message = parseMessage MessageProtocol JSON_parse data in
          if \<not> truthy message then
            Inr (update_connection connectionId count_error
                   (snd (sendError connectionId INVALID_MESSAGE ''Invalid message format''
                           JUndefined s)))
          else if authRequired s \<and> \<not> isAuthenticated connection
                  \<and> get_prop message ''type'' \<noteq> JStr SYSTEM_AUTH then
            Inr (update_connection connectionId count_error
                   (snd (sendError connectionId UNAUTHORIZED ''Authentication required''
                           JUndefined s)))
          else
            (case get_prop message ''type'' of
               JStr t \<Rightarrow>
                 if starts_with ''system.'' t then Inr (handleSystemMessage connectionId message s)
                 else Inr (server_handleMessage connectionId message
                             (emit (Emit ConnectionManager ''message''
                                      (JObj [(''connectionId'', JStr connectionId),
                                             (''message'', message)])) s))
             | other \<Rightarrow> Inl (TypeError ''message.type.startsWith is not a function'')))"

text \<open>
  The three listeners \<open>addConnection\<close> puts on the socket. They hold the connection
  object; once it is removed from the map their writes to it are no longer visible.
\<close>

definition on_message :: "json_parser \<Rightarrow> string \<Rightarrow> raw \<Rightarrow> server \<Rightarrow> exn + server" where
  "on_message JSON_parse i data s =
     cm_handleMessage JSON_parse i data
       (update_connection i
          (\<lambda>c. c\<lparr>lastActivity := clock s,
                 stats := (stats c)\<lparr>messagesReceived := messagesReceived (stats c) + 1\<rparr>\<rparr>) s)"

definition on_close :: "string \<Rightarrow> server \<Rightarrow> server" where
  "on_close i s = snd (removeConnection i s)"

definition on_error :: "string \<Rightarrow> server \<Rightarrow> server" where
  "on_error i s = snd (removeConnection i (update_connection i count_error s))"

text \<open>\<open>MCPServer.handleConnection\<close>: accept, then the welcome message.\<close>

definition handleConnection :: "socket \<Rightarrow> request \<Rightarrow> string \<Rightarrow> server \<Rightarrow> server" where
  "handleConnection ws req newId s =
     (case addConnection ws
             \<lparr>info_ipAddress = remoteAddress req, info_userAgent = user_agent req,
              info_req = Some req\<rparr> newId s of
        (Some connectionId, s1) \<Rightarrow>
          if connectionId = [] then s1
          else snd (sendMessage connectionId (JStr SYSTEM_INFO)
                 (JObj [(''name'', JStr ''Claude UI MCP Server''), (''version'', JStr ''0.1.0''),
                        (''timestamp'', JNum (clock s)),
                        (''message'', JStr ''Welcome to the Claude UI MCP Server'')]) s1)
      | (None, s1) \<Rightarrow> s1)"


section \<open>ProxyHandler\<close>

text \<open>
  Header objects and endpoint aliases are maps from names to strings. The auth handler is
  a function of the host that returns a header object or throws.
\<close>

type_synonym headers = "string \<rightharpoonup> string"

record route =
  baseUrl :: string
  endpoints :: "string \<rightharpoonup> string"
  route_headers :: headers
  timeout :: int
  authHandler :: "(string \<Rightarrow> string \<Rightarrow> headers completion) option"

record route_config =
  cfg_baseUrl :: "string option"
  cfg_endpoints :: "(string \<rightharpoonup> string) option"
  cfg_headers :: "headers option"
  cfg_timeout :: "int option"
  cfg_authHandler :: "(string \<Rightarrow> string \<Rightarrow> headers completion) option"

definition registerRoute ::
  "int \<Rightarrow> string \<Rightarrow> route_config option \<Rightarrow> (string \<times> route) list
     \<Rightarrow> exn + (string \<times> route) list" where
  "registerRoute defaultTimeout name config routes =
     (case config of
        None \<Rightarrow> Inl (Error ''Invalid route configuration'')
      | Some cfg \<Rightarrow>
          if name = [] \<or> cfg_baseUrl cfg = None \<or> cfg_baseUrl cfg = Some []
          then Inl (Error ''Invalid route configuration'')
          else Inr (AList.update name
                 \<lparr>baseUrl = (case cfg_baseUrl cfg of Some b \<Rightarrow> b | None \<Rightarrow> []),
                  endpoints = (case cfg_endpoints cfg of Some e \<Rightarrow> e | None \<Rightarrow> Map.empty),
                  route_headers = (case cfg_headers cfg of Some h \<Rightarrow> h | None \<Rightarrow> Map.empty),
                  timeout = (case cfg_timeout cfg of
                               Some t \<Rightarrow> if t = 0 then defaultTimeout else t
                             | None \<Rightarrow> defaultTimeout),
                  authHandler = cfg_authHandler cfg\<rparr> routes))"



section \<open>The server as a transition system\<close>

text \<open>
  What can happen to a running server: a transport is accepted, a socket delivers a
  message, closes or fails, the liveness timer fires, the server's owner sends,
  broadcasts, removes or closes all, and time passes. A step ends in a state, or in the
  exception that left the listener.
\<close>

datatype action =
    Accept socket request string
  | Receive string raw
  | Closed string
  | Errored string
  | Sweep
  | Send string jsval jsval
  | Broadcast jsval jsval "(connection \<Rightarrow> bool) option"
  | Remove string
  | CloseAll
  | Tick nat

fun step :: "json_parser \<Rightarrow> action \<Rightarrow> server \<Rightarrow> exn + server" where
  "step P (Accept ws req newId) s = Inr (handleConnection ws req newId s)"
| "step P (Receive i data) s = on_message P i data s"
| "step P (Closed i) s = Inr (on_close i s)"
| "step P (Errored i) s = Inr (on_error i s)"
| "step P Sweep s = Inr (pingConnections s)"
| "step P (Send i type data) s = Inr (snd (sendMessage i type data s))"
| "step P (Broadcast type data filt) s = Inr (snd (broadcastMessage type data filt s))"
| "step P (Remove i) s = Inr (snd (removeConnection i s))"
| "step P CloseAll s = Inr (closeAllConnections s)"
| "step P (Tick d) s = Inr (s\<lparr>clock := clock s + int d\<rparr>)"

text \<open>The id generator returns an id that no live connection has.\<close>

fun fresh :: "action \<Rightarrow> server \<Rightarrow> bool" where
  "fresh (Accept ws req newId) s = (newId \<notin> fst ` set (connections s))"
| "fresh a s = True"

text \<open>A server starts with no connection.\<close>

inductive reachable :: "json_parser \<Rightarrow> server \<Rightarrow> bool" for P :: json_parser where
  reach_start: "connections s = [] \<Longrightarrow> reachable P s"
| reach_step: "reachable P s \<Longrightarrow> fresh a s \<Longrightarrow> step P a s = Inr s' \<Longrightarrow> reachable P s'"

section \<open>Concrete servers and messages\<close>

definition ex_socket :: socket where
  "ex_socket = \<lparr>sock_id = 1, readyState = 1, send_throws = False, close_throws = False\<rparr>"

definition ex_connection :: connection where
  "ex_connection =
     \<lparr>cid = ''c1'', socket = ex_socket, ipAddress = JStr ''127.0.0.1'', userAgent = JStr ''ws'',
      connected = 0, lastActivity = 0, isAuthenticated = False, clientInfo = [],
      stats = \<lparr>messagesReceived = 0, messagesSent = 0, errors = 0\<rparr>\<rparr>"

definition ex_echo :: jsval where
  "ex_echo = JObj [(''type'', JStr ''echo''), (''data'', JObj [(''msg'', JStr ''hi'')])]"

definition ex_auth :: jsval where
  "ex_auth = JObj [(''type'', JStr ''system.auth''), (''data'', JObj [])]"

text \<open>A parser that knows the texts of the two messages above and of the number 5.\<close>

definition ex_parse :: json_parser where
  "ex_parse t =
     (if Some t = json_text ex_echo then Some ex_echo
      else if Some t = json_text ex_auth then Some ex_auth
      else if t = ''5'' then Some (JNum 5)
      else None)"

text \<open>A server that requires authentication, full with one unauthenticated connection.\<close>

definition ex_server :: server where
  "ex_server =
     \<lparr>connections = [(''c1'', ex_connection)], maxConnections = 1, idleTimeout = 300000,
      authRequired = True, tokenExpiration = 86400000, clock = 1000,
      plugins = [], handlers = [(''echo'', echo_handler)], trace = []\<rparr>"

definition ex_failing_socket :: socket where
  "ex_failing_socket = \<lparr>sock_id = 2, readyState = 1, send_throws = True, close_throws = False\<rparr>"

definition ex_info :: info where
  "ex_info = \<lparr>info_ipAddress = JStr ''10.0.0.2'', info_userAgent = JStr ''ws'', info_req = None\<rparr>"

text \<open>The JSON text of a value that has one.\<close>

definition text_of :: "jsval \<Rightarrow> string" where
  "text_of v = (case json_text v of Some t \<Rightarrow> t | None \<Rightarrow> [])"

text \<open>Plugins whose \<^verbatim>\<open>handleMessage\<close> claims every envelope, declines it, or throws.\<close>

definition claiming_plugin :: plugin where
  "claiming_plugin =
     \<lparr>enabled = True,
      module = (\<lambda>m. if m = ''handleMessage'' then Some (\<lambda>now args. Normal (JBool True))
                     else None)\<rparr>"

definition declining_plugin :: plugin where
  "declining_plugin =
     \<lparr>enabled = True,
      module = (\<lambda>m. if m = ''handleMessage'' then Some (\<lambda>now args. Normal (JBool False))
                     else None)\<rparr>"

definition throwing_plugin :: plugin where
  "throwing_plugin =
     \<lparr>enabled = True,
      module = (\<lambda>m. if m = ''handleMessage'' then Some (\<lambda>now args. Throw (Error ''plugin failed''))
                     else None)\<rparr>"

definition throwing_handler :: handler where
  "throwing_handler now message context = Throw (Error ''handler failed'')"

definition ex_plugin_server :: server where
  "ex_plugin_server =
     ex_server\<lparr>plugins := [(''first'', claiming_plugin), (''second'', declining_plugin)]\<rparr>"

definition ex_faulty_plugin_server :: server where
  "ex_faulty_plugin_server = ex_server\<lparr>plugins := [(''faulty'', throwing_plugin)]\<rparr>"

definition ex_faulty_handler_server :: server where
  "ex_faulty_handler_server =
     ex_server\<lparr>plugins := [(''second'', declining_plugin)],
               handlers := [(''echo'', throwing_handler)]\<rparr>"

text \<open>
  The server above before it had a connection, the same server once \<open>c1\<close> is accepted,
  a server that does not require authentication, and the full server much later.
\<close>

definition ex_request :: request where
  "ex_request = \<lparr>remoteAddress = JStr ''127.0.0.1'', user_agent = JStr ''ws''\<rparr>"

definition ex_empty_server :: server where
  "ex_empty_server = ex_server\<lparr>connections := []\<rparr>"

definition ex_accepted_server :: server where
  "ex_accepted_server = handleConnection ex_socket ex_request ''c1'' ex_empty_server"

definition ex_open_server :: server where
  "ex_open_server = ex_empty_server\<lparr>authRequired := False\<rparr>"

definition ex_late_server :: server where
  "ex_late_server = ex_server\<lparr>clock := 400000\<rparr>"

text \<open>
  A parser that knows the text of one value, an envelope as \<open>createMessage\<close> builds it,
  and an object whose \<^verbatim>\<open>type\<close> is the empty string.
\<close>

definition parse_back :: "jsval \<Rightarrow> json_parser" where
  "parse_back v t = (if Some t = json_text v then Some v else None)"




definition ex_mock_config :: route_config where
  "ex_mock_config =
     \<lparr>cfg_baseUrl = Some ''https://httpbin.org'',
      cfg_endpoints = Some [''/complete'' \<mapsto> ''/anything'', ''/models'' \<mapsto> ''/json''],
      cfg_headers = None, cfg_timeout = Some 5000, cfg_authHandler = None\<rparr>"

definition ex_secured_config :: route_config where
  "ex_secured_config =
     \<lparr>cfg_baseUrl = Some ''https://api.example.org'',
      cfg_endpoints = None,
      cfg_headers = Some [''Accept'' \<mapsto> ''application/json'', ''X-Route'' \<mapsto> ''r''],
      cfg_timeout = None,
      cfg_authHandler = Some (\<lambda>routeName endpoint.
        Normal [''Authorization'' \<mapsto> ''Bearer t'', ''X-Route'' \<mapsto> ''auth''])\<rparr>"

definition ex_routes :: "(string \<times> route) list" where
  "ex_routes =
     [(''mock-ai'',
       \<lparr>baseUrl = ''https://httpbin.org'',
        endpoints = [''/complete'' \<mapsto> ''/anything'', ''/models'' \<mapsto> ''/json''],
        route_headers = Map.empty, timeout = 5000, authHandler = None\<rparr>),
      (''secured'',
       \<lparr>baseUrl = ''https://api.example.org'',
        endpoints = Map.empty,
        route_headers = [''Accept'' \<mapsto> ''application/json'', ''X-Route'' \<mapsto> ''r''],
        timeout = 30000,
        authHandler = Some (\<lambda>routeName endpoint.
          Normal [''Authorization'' \<mapsto> ''Bearer t'', ''X-Route'' \<mapsto> ''auth''])\<rparr>)]"

section \<open>A relation between states, for the proofs\<close>

text \<open>
  \<open>quiet s s'\<close>: from \<open>s\<close> to \<open>s'\<close> the configuration and the clock are the same, no
  connection has appeared, no connection's authentication flag or socket has changed, no
  sent counter has gone down, and an activity time that changed is now the clock's and
  comes with a higher sent counter. It holds across everything the server does except
  accepting a connection, the write a socket's message listener makes, the
  authentication of a connection and the passing of time.
\<close>

definition quiet :: "server \<Rightarrow> server \<Rightarrow> bool" where
  "quiet s s' \<longleftrightarrow>
     authRequired s' = authRequired s \<and> clock s' = clock s \<and> idleTimeout s' = idleTimeout s \<and>
     maxConnections s' = maxConnections s \<and> tokenExpiration s' = tokenExpiration s \<and>
     plugins s' = plugins s \<and> handlers s' = handlers s \<and>
     (\<forall>i c'. map_of (connections s') i = Some c' \<longrightarrow>
        (\<exists>c. map_of (connections s) i = Some c \<and>
             isAuthenticated c' = isAuthenticated c \<and> socket c' = socket c \<and>
             messagesSent (stats c) \<le> messagesSent (stats c') \<and>
             (lastActivity c' = lastActivity c \<or>
              lastActivity c' = clock s \<and> messagesSent (stats c) < messagesSent (stats c'))))"

section \<open>Properties\<close>

subsection \<open>Field access through the state updates\<close>

lemma update_connection_fields [simp]:
  "trace (update_connection i f s) = trace s"
  "clock (update_connection i f s) = clock s"
  "authRequired (update_connection i f s) = authRequired s"
  "maxConnections (update_connection i f s) = maxConnections s"
  "idleTimeout (update_connection i f s) = idleTimeout s"
  "tokenExpiration (update_connection i f s) = tokenExpiration s"
  "plugins (update_connection i f s) = plugins s"
  "handlers (update_connection i f s) = handlers s"
  by (simp_all add: update_connection_def)

lemma emit_fields [simp]:
  "trace (emit e s) = trace s @ [e]"
  "connections (emit e s) = connections s"
  "clock (emit e s) = clock s"
  "authRequired (emit e s) = authRequired s"
  "maxConnections (emit e s) = maxConnections s"
  "idleTimeout (emit e s) = idleTimeout s"
  "tokenExpiration (emit e s) = tokenExpiration s"
  "plugins (emit e s) = plugins s"
  "handlers (emit e s) = handlers s"
  by (simp_all add: emit_def)

lemma map_of_update_connection:
  "map_of (connections (update_connection i f s)) k =
     (if k = i then map_option f (map_of (connections s) k) else map_of (connections s) k)"
  by (simp add: update_connection_def map_of_map_entry split: option.splits)

subsection \<open>Default arguments\<close>

lemma default_object_simps [simp]:
  "default_object JUndefined = JObj []"
  "default_object (JObj kvs) = JObj kvs"
  "default_object (default_object v) = default_object v"
  "has_bigint (default_object v) = has_bigint v"
  by (simp_all add: default_object_def)

lemma createMessage_defaults [simp]:
  "createMessage p now type data JUndefined = createMessage p now type data (JObj [])"
  "createMessage p now type (default_object data) metadata
     = createMessage p now type data metadata"
  by (simp_all add: createMessage_def)

lemma createErrorMessage_default [simp]:
  "createErrorMessage p now code message JUndefined
     = createErrorMessage p now code message (JObj [])"
  by (simp add: createErrorMessage_def)

subsection \<open>Sending\<close>

text \<open>A message without BigInt serializes to a non-empty text.\<close>

lemma serializeMessage_plain:
  assumes "\<not> has_bigint type" "\<not> has_bigint data"
  shows "\<exists>t. serializeMessage (createMessage p now type data (JObj [])) = Some t \<and> t \<noteq> []"
  using assms
  by (simp add: serializeMessage_def createMessage_def assign_all_def JSON_stringify_def)

text \<open>
  A send to a live connection calls \<^verbatim>\<open>socket.send\<close> with the text; then the
  connection's activity time and sent counter are updated, or, when the call throws, its
  error counter.
\<close>

lemma sendMessage_live:
  assumes "map_of (connections s) i = Some c" "\<not> has_bigint type" "\<not> has_bigint data"
  shows "\<exists>t. serializeMessage (createMessage MessageProtocol (clock s) type
                                  (default_object data) (JObj [])) = Some t
        \<and> sendMessage i type data s =
            (\<not> send_throws (socket c),
             update_connection i
               (if send_throws (socket c) then count_error
                else (\<lambda>c. c\<lparr>lastActivity := clock s,
                           stats := (stats c)\<lparr>messagesSent := messagesSent (stats c) + 1\<rparr>\<rparr>))
               (emit (SocketSend (sock_id (socket c)) (Some t)) s))"
proof -
  have "\<not> has_bigint (default_object data)"
    using assms by (simp add: default_object_def)
  from serializeMessage_plain [OF assms(2) this]
  obtain t where t: "serializeMessage (createMessage MessageProtocol (clock s) type
                                         (default_object data) (JObj [])) = Some t" "t \<noteq> []"
    by blast
  show ?thesis
    using t assms(1) by (simp add: sendMessage_def Let_def)
qed


subsection \<open>Malformed input\<close>




subsection \<open>The authentication gate\<close>

lemma system_auth_cases:
  "starts_with ''system.'' SYSTEM_AUTH" "SYSTEM_AUTH \<noteq> SYSTEM_PING"
  by (simp_all add: starts_with_def SYSTEM_AUTH_def SYSTEM_PING_def)


subsection \<open>Rejection at the connection limit\<close>

text \<open>
  When the number of live connections equals the maximum, \<open>addConnection\<close> returns no
  id and changes nothing of the server but the trace: it calls \<^verbatim>\<open>send\<close> on the new
  transport with the serialized code-500 system error and, when that call does not throw,
  \<^verbatim>\<open>close\<close> on the transport.
\<close>

lemma addConnection_rejects_when_full:
  assumes "int (length (connections s)) = maxConnections s"
  shows "\<exists>t. serializeMessage (createErrorMessage MessageProtocol (clock s) SERVER_ERROR
                  ''Maximum connections reached'' (JObj [])) = Some t \<and>
           fst (addConnection sock peer newId s) = None \<and>
           (snd (addConnection sock peer newId s))\<lparr>trace := trace s\<rparr> = s \<and>
           (\<exists>rest. trace (snd (addConnection sock peer newId s)) =
                     trace s @ SocketSend (sock_id sock) (Some t) # rest) \<and>
           (\<not> send_throws sock \<longrightarrow>
              trace (snd (addConnection sock peer newId s)) =
                trace s @ [SocketSend (sock_id sock) (Some t), SocketClose (sock_id sock)])"
proof -
  have "\<exists>t. serializeMessage (createErrorMessage MessageProtocol (clock s) SERVER_ERROR
                  ''Maximum connections reached'' (JObj [])) = Some t \<and> t \<noteq> []"
    using serializeMessage_plain
            [of "JStr SYSTEM_ERROR"
                "JObj [(''code'', JNum SERVER_ERROR),
                       (''message'', JStr ''Maximum connections reached''),
                       (''details'', JObj [])]" MessageProtocol "clock s"]
    by (simp add: createErrorMessage_def)
  then obtain t where t: "serializeMessage (createErrorMessage MessageProtocol (clock s) SERVER_ERROR
                  ''Maximum connections reached'' (JObj [])) = Some t"
    by blast
  show ?thesis
    using assms t by (simp add: addConnection_def Let_def emit_def)
qed

text \<open>
  C5 asks that a transport rejected at the connection limit is sent the code-500 system
  error and closed. On a transport whose \<^verbatim>\<open>send\<close> throws, the code does not close
  it: \<^verbatim>\<open>close\<close> sits behind \<^verbatim>\<open>send\<close> in the same \<^verbatim>\<open>try\<close> block and is
  skipped. Here the server is full, the new transport's \<^verbatim>\<open>send\<close> throws, and the
  whole trace of the rejection is the one call of \<^verbatim>\<open>send\<close>.
\<close>

theorem C5_close_skipped_on_failed_send:
  "int (length (connections ex_server)) = maxConnections ex_server \<and>
   send_throws ex_failing_socket \<and>
   fst (addConnection ex_failing_socket ex_info ''c2'' ex_server) = None \<and>
   trace (snd (addConnection ex_failing_socket ex_info ''c2'' ex_server)) =
     [SocketSend 2 (serializeMessage
        (createErrorMessage MessageProtocol 1000 SERVER_ERROR ''Maximum connections reached''
           (JObj [])))] \<and>
   SocketClose (sock_id ex_failing_socket)
     \<notin> set (trace (snd (addConnection ex_failing_socket ex_info ''c2'' ex_server)))"
  by (simp add: addConnection_def ex_server_def ex_failing_socket_def Let_def emit_def)

subsection \<open>Removing a connection\<close>

lemma removeConnection_absent:
  "map_of (connections s) i = None \<Longrightarrow> removeConnection i s = (False, s)"
  by (simp add: removeConnection_def)

lemma removeConnection_present:
  assumes "map_of (connections s) i = Some c"
  shows "removeConnection i s =
           (True, s\<lparr>connections := AList.delete i (connections s),
                    trace := trace s @ (if readyState (socket c) = 1
                                        then [SocketClose (sock_id (socket c))] else [])
                             @ [Emit ConnectionManager ''disconnection'' (JObj [(''id'', JStr i)])]\<rparr>)"
  using assms by (simp add: removeConnection_def Let_def emit_def)

lemma removed_is_absent:
  "map_of (connections (snd (removeConnection i s))) i = None"
  by (cases "map_of (connections s) i")
     (simp_all add: removeConnection_absent removeConnection_present delete_conv')

lemma repeat_remove:
  "0 < n \<Longrightarrow> ((\<lambda>s. snd (removeConnection i s)) ^^ n) s = snd (removeConnection i s)"
proof (induction n)
  case 0
  then show ?case by simp
next
  case (Suc n)
  show ?case
  proof (cases "n = 0")
    case True
    then show ?thesis by simp
  next
    case False
    with Suc.IH have "((\<lambda>s. snd (removeConnection i s)) ^^ n) s = snd (removeConnection i s)"
      by simp
    then show ?thesis
      by (simp add: removeConnection_absent [OF removed_is_absent])
  qed
qed

text \<open>
  C7. After a live connection has been removed, a further \<open>removeConnection\<close> with
  the same id returns \<^verbatim>\<open>false\<close> and leaves the state as it is; however many times
  the call is repeated, the state is that after the first call, and the trace has gained
  exactly one \<^verbatim>\<open>disconnection\<close> event for the id.
\<close>

theorem C7_remove_idempotent:
  assumes "map_of (connections s) i = Some c" and "0 < n"
  shows "removeConnection i (snd (removeConnection i s)) = (False, snd (removeConnection i s)) \<and>
         ((\<lambda>s. snd (removeConnection i s)) ^^ n) s = snd (removeConnection i s) \<and>
         count_list (drop (length (trace s))
                          (trace (((\<lambda>s. snd (removeConnection i s)) ^^ n) s)))
           (Emit ConnectionManager ''disconnection'' (JObj [(''id'', JStr i)])) = 1"
proof -
  let ?s1 = "snd (removeConnection i s)"
  have again: "removeConnection i ?s1 = (False, ?s1)"
    by (rule removeConnection_absent [OF removed_is_absent])
  have many: "((\<lambda>s. snd (removeConnection i s)) ^^ n) s = ?s1"
    using assms(2) by (rule repeat_remove)
  have "trace ?s1 = trace s @ (if readyState (socket c) = 1
                                then [SocketClose (sock_id (socket c))] else [])
                     @ [Emit ConnectionManager ''disconnection'' (JObj [(''id'', JStr i)])]"
    by (simp add: removeConnection_present [OF assms(1)])
  then have "count_list (drop (length (trace s)) (trace ?s1))
               (Emit ConnectionManager ''disconnection'' (JObj [(''id'', JStr i)])) = 1"
    by simp
  with again many show ?thesis
    by simp
qed


theorem C7_remove_idempotent_witness:
  "map_of (connections ex_server) ''c1'' = Some ex_connection \<and> (0::nat) < 3 \<and>
   removeConnection ''c1'' (snd (removeConnection ''c1'' ex_server))
     = (False, snd (removeConnection ''c1'' ex_server)) \<and>
   ((\<lambda>s. snd (removeConnection ''c1'' s)) ^^ 3) ex_server = snd (removeConnection ''c1'' ex_server) \<and>
   count_list (drop (length (trace ex_server))
                    (trace (((\<lambda>s. snd (removeConnection ''c1'' s)) ^^ 3) ex_server)))
     (Emit ConnectionManager ''disconnection'' (JObj [(''id'', JStr ''c1'')])) = 1"
proof -
  have live: "map_of (connections ex_server) ''c1'' = Some ex_connection"
    by (simp add: ex_server_def)
  have pos: "(0::nat) < 3"
    by simp
  from C7_remove_idempotent [OF live pos] live pos show ?thesis
    by blast
qed

subsection \<open>Concrete runs\<close>

lemma ex_parse_echo: "ex_parse (text_of ex_echo) = Some ex_echo"
  by (simp add: ex_parse_def text_of_def ex_echo_def)

lemma ex_texts_differ: "json_text ex_auth \<noteq> json_text ex_echo"
  by (simp add: ex_auth_def ex_echo_def quote_def escape_char_def)

lemma ex_parse_auth: "ex_parse (text_of ex_auth) = Some ex_auth"
  using ex_texts_differ by (simp add: ex_parse_def text_of_def ex_auth_def)

lemma ex_envelopes:
  "parseMessage MessageProtocol ex_parse (RawText (text_of ex_echo)) = ex_echo"
  "parseMessage MessageProtocol ex_parse (RawText (text_of ex_auth)) = ex_auth"
  by (simp_all add: parseMessage_def ex_parse_echo ex_parse_auth MessageProtocol_def
        validateMessage_def, simp_all add: ex_echo_def ex_auth_def)


lemma ex_rejection:
  "int (length (connections ex_server)) = maxConnections ex_server \<and> \<not> send_throws ex_socket \<and>
   (\<exists>t. serializeMessage (createErrorMessage MessageProtocol (clock ex_server) SERVER_ERROR
                  ''Maximum connections reached'' (JObj [])) = Some t \<and>
        fst (addConnection ex_socket ex_info ''c2'' ex_server) = None \<and>
        (snd (addConnection ex_socket ex_info ''c2'' ex_server))\<lparr>trace := trace ex_server\<rparr>
          = ex_server \<and>
        trace (snd (addConnection ex_socket ex_info ''c2'' ex_server)) =
          trace ex_server @ [SocketSend (sock_id ex_socket) (Some t), SocketClose (sock_id ex_socket)])"
proof -
  have full: "int (length (connections ex_server)) = maxConnections ex_server"
    by (simp add: ex_server_def)
  have ok: "\<not> send_throws ex_socket"
    by (simp add: ex_socket_def)
  from addConnection_rejects_when_full [OF full, of ex_socket ex_info "''c2''"] full ok
  show ?thesis
    by blast
qed

subsection \<open>Plugin hooks and the handler registry\<close>

text \<open>
  \<open>callPluginMethod\<close> calls the method of every enabled plugin that has it, in
  registration order, whatever the earlier ones returned or threw.
\<close>

lemma callPluginMethod_loop_eq:
  "callPluginMethod_loop m args ps results s =
     (results @ map (\<lambda>(n, p). case the (module p m) (clock s) args of
                                Normal r \<Rightarrow> Result n r | Throw e \<Rightarrow> Failure n e)
                    (filter (\<lambda>(n, p). enabled p \<and> module p m \<noteq> None) ps),
      s\<lparr>trace := trace s @ map (\<lambda>(n, p). HookCall n m)
                             (filter (\<lambda>(n, p). enabled p \<and> module p m \<noteq> None) ps)\<rparr>)"
proof (induction ps arbitrary: results s)
  case Nil
  then show ?case by simp
next
  case (Cons a ps)
  obtain n p where a: "a = (n, p)" by (cases a)
  show ?case
    unfolding a by (auto simp: Cons.IH emit_def)
qed

lemma callPluginMethod_eq:
  "callPluginMethod m args s =
     (map (\<lambda>(n, p). case the (module p m) (clock s) args of
                       Normal r \<Rightarrow> Result n r | Throw e \<Rightarrow> Failure n e)
          (filter (\<lambda>(n, p). enabled p \<and> module p m \<noteq> None) (plugins s)),
      s\<lparr>trace := trace s @ map (\<lambda>(n, p). HookCall n m)
                             (filter (\<lambda>(n, p). enabled p \<and> module p m \<noteq> None) (plugins s))\<rparr>)"
  by (simp add: callPluginMethod_def callPluginMethod_loop_eq)






subsection \<open>Faults of handlers and hooks\<close>

lemma keys_update_connection [simp]:
  "map fst (connections (update_connection i f s)) = map fst (connections s)"
proof -
  have "map fst (AList.map_entry i f xs) = map fst xs" for xs :: "(string \<times> connection) list"
    by (induction xs) auto
  then show ?thesis
    by (simp add: update_connection_def)
qed




lemmas ex_defs = ex_server_def ex_connection_def ex_socket_def ex_echo_def
  ex_plugin_server_def ex_faulty_plugin_server_def ex_faulty_handler_server_def
  claiming_plugin_def declining_plugin_def throwing_plugin_def throwing_handler_def




subsection \<open>The liveness sweep\<close>

lemma sendMessage_fields [simp]:
  "clock (snd (sendMessage j type data s)) = clock s"
  "idleTimeout (snd (sendMessage j type data s)) = idleTimeout s"
  "authRequired (snd (sendMessage j type data s)) = authRequired s"
  "maxConnections (snd (sendMessage j type data s)) = maxConnections s"
  "tokenExpiration (snd (sendMessage j type data s)) = tokenExpiration s"
  "plugins (snd (sendMessage j type data s)) = plugins s"
  "handlers (snd (sendMessage j type data s)) = handlers s"
  by (simp_all add: sendMessage_def Let_def split: option.splits)

lemma removeConnection_fields [simp]:
  "clock (snd (removeConnection j s)) = clock s"
  "idleTimeout (snd (removeConnection j s)) = idleTimeout s"
  "authRequired (snd (removeConnection j s)) = authRequired s"
  "maxConnections (snd (removeConnection j s)) = maxConnections s"
  "tokenExpiration (snd (removeConnection j s)) = tokenExpiration s"
  "plugins (snd (removeConnection j s)) = plugins s"
  "handlers (snd (removeConnection j s)) = handlers s"
  by (simp_all add: removeConnection_def Let_def emit_def split: option.splits)

lemma sendMessage_other:
  "i \<noteq> j \<Longrightarrow> map_of (connections (snd (sendMessage j type data s))) i = map_of (connections s) i"
  by (simp add: sendMessage_def Let_def map_of_update_connection split: option.splits)

lemma removeConnection_other:
  "i \<noteq> j \<Longrightarrow> map_of (connections (snd (removeConnection j s))) i = map_of (connections s) i"
  by (simp add: removeConnection_def Let_def emit_def split: option.splits)

lemma ping_loop_fields [simp]:
  "clock (ping_loop now ids s) = clock s"
  "idleTimeout (ping_loop now ids s) = idleTimeout s"
  "authRequired (ping_loop now ids s) = authRequired s"
  by (induction ids arbitrary: s; simp split: option.splits)+

lemma ping_loop_other:
  "i \<notin> set ids \<Longrightarrow> map_of (connections (ping_loop now ids s)) i = map_of (connections s) i"
  by (induction ids arbitrary: s)
     (auto simp: sendMessage_other removeConnection_other split: option.splits)

text \<open>One visit of the sweep.\<close>

lemma ping_visit:
  assumes "map_of (connections s) i = Some c"
  shows "ping_loop now (i # ids) s =
           ping_loop now ids
             (if now - lastActivity c > idleTimeout s then snd (removeConnection i s)
              else snd (sendMessage i (JStr SYSTEM_PING) (JObj [(''timestamp'', JNum now)]) s))"
  using assms by simp

lemma ping_sent:
  assumes "map_of (connections s) i = Some c"
  shows "map_of (connections (snd (sendMessage i (JStr SYSTEM_PING)
                                     (JObj [(''timestamp'', JNum now)]) s))) i =
           Some (if send_throws (socket c) then count_error c
                 else c\<lparr>lastActivity := clock s,
                        stats := (stats c)\<lparr>messagesSent := messagesSent (stats c) + 1\<rparr>\<rparr>)"
proof -
  have "\<not> has_bigint (JStr SYSTEM_PING)" "\<not> has_bigint (JObj [(''timestamp'', JNum now)])"
    by simp_all
  from sendMessage_live [OF assms this] show ?thesis
    using assms by (auto simp: map_of_update_connection)
qed

lemma ping_loop_visits:
  assumes "distinct ids" and "i \<in> set ids" and "map_of (connections s) i = Some c"
  shows "map_of (connections (ping_loop now ids s)) i =
           (if now - lastActivity c > idleTimeout s then None
            else Some (if send_throws (socket c) then count_error c
                       else c\<lparr>lastActivity := clock s,
                              stats := (stats c)\<lparr>messagesSent := messagesSent (stats c) + 1\<rparr>\<rparr>))"
  using assms
proof (induction ids arbitrary: s)
  case Nil
  then show ?case by simp
next
  case (Cons j ids)
  show ?case
  proof (cases "j = i")
    case True
    then have "i \<notin> set ids"
      using Cons.prems(1) by simp
    then show ?thesis
      using True Cons.prems(3)
      by (simp add: ping_loop_other ping_sent removed_is_absent)
  next
    case False
    then have rest: "i \<in> set ids" "distinct ids"
      using Cons.prems by simp_all
    show ?thesis
    proof (cases "map_of (connections s) j")
      case None
      then show ?thesis
        using Cons.IH [OF rest(2) rest(1) Cons.prems(3)] by simp
    next
      case (Some d)
      let ?s1 = "if now - lastActivity d > idleTimeout s then snd (removeConnection j s)
                 else snd (sendMessage j (JStr SYSTEM_PING) (JObj [(''timestamp'', JNum now)]) s)"
      have live1: "map_of (connections ?s1) i = Some c"
        using False Cons.prems(3) by (simp add: sendMessage_other removeConnection_other)
      have same: "idleTimeout ?s1 = idleTimeout s" "clock ?s1 = clock s"
        by simp_all
      have "ping_loop now (j # ids) s = ping_loop now ids ?s1"
        using Some by simp
      then show ?thesis
        using Cons.IH [OF rest(2) rest(1) live1] same by simp
    qed
  qed
qed


subsection \<open>Quiet operations\<close>

lemma quiet_refl [simp]: "quiet s s"
  by (simp add: quiet_def)

lemma quiet_trans:
  assumes "quiet s s1" and "quiet s1 s2"
  shows "quiet s s2"
proof -
  have cfg: "authRequired s2 = authRequired s" "clock s2 = clock s" "idleTimeout s2 = idleTimeout s"
    "maxConnections s2 = maxConnections s" "tokenExpiration s2 = tokenExpiration s"
    "plugins s2 = plugins s" "handlers s2 = handlers s" and clk: "clock s1 = clock s"
    using assms by (simp_all add: quiet_def)
  have "\<exists>c. map_of (connections s) i = Some c \<and>
             isAuthenticated c2 = isAuthenticated c \<and> socket c2 = socket c \<and>
             messagesSent (stats c) \<le> messagesSent (stats c2) \<and>
             (lastActivity c2 = lastActivity c \<or>
              lastActivity c2 = clock s \<and> messagesSent (stats c) < messagesSent (stats c2))"
    if "map_of (connections s2) i = Some c2" for i c2
  proof -
    from assms(2) that obtain c1 where c1: "map_of (connections s1) i = Some c1"
      "isAuthenticated c2 = isAuthenticated c1" "socket c2 = socket c1"
      "messagesSent (stats c1) \<le> messagesSent (stats c2)"
      "lastActivity c2 = lastActivity c1 \<or>
       lastActivity c2 = clock s1 \<and> messagesSent (stats c1) < messagesSent (stats c2)"
      unfolding quiet_def by blast
    from assms(1) c1(1) obtain c where c: "map_of (connections s) i = Some c"
      "isAuthenticated c1 = isAuthenticated c" "socket c1 = socket c"
      "messagesSent (stats c) \<le> messagesSent (stats c1)"
      "lastActivity c1 = lastActivity c \<or>
       lastActivity c1 = clock s \<and> messagesSent (stats c) < messagesSent (stats c1)"
      unfolding quiet_def by blast
    show ?thesis
      using c c1 clk by auto
  qed
  with cfg show ?thesis
    by (simp add: quiet_def)
qed

lemma quiet_emit: "quiet s s1 \<Longrightarrow> quiet s (emit e s1)"
  by (simp add: quiet_def)

lemma quiet_update_connection:
  assumes "quiet s s1"
    and "\<And>c. isAuthenticated (f c) = isAuthenticated c \<and> socket (f c) = socket c \<and>
               messagesSent (stats c) \<le> messagesSent (stats (f c)) \<and>
               (lastActivity (f c) = lastActivity c \<or>
                lastActivity (f c) = clock s \<and> messagesSent (stats c) < messagesSent (stats (f c)))"
  shows "quiet s (update_connection i f s1)"
proof -
  have "quiet s1 (update_connection i f s1)"
    using assms(1,2) by (auto simp: quiet_def map_of_update_connection split: if_splits)
  with assms(1) show ?thesis
    by (rule quiet_trans)
qed

lemma quiet_count_error: "quiet s s1 \<Longrightarrow> quiet s (update_connection i count_error s1)"
  by (rule quiet_update_connection) (simp_all add: count_error_def)

lemma quiet_sendMessage: 
  assumes "quiet s s1"
  shows "quiet s (snd (sendMessage i type data s1))"
proof -
  have clk: "clock s1 = clock s"
    using assms by (simp add: quiet_def)
  have a: "quiet s (update_connection i count_error (emit e s1))" for e
    by (intro quiet_count_error quiet_emit assms)
  have b: "quiet s (update_connection i
              (\<lambda>c. c\<lparr>lastActivity := clock s1,
                     stats := (stats c)\<lparr>messagesSent := messagesSent (stats c) + 1\<rparr>\<rparr>)
              (emit e s1))" for e
    by (rule quiet_update_connection, intro quiet_emit assms) (simp add: clk)
  show ?thesis
    using assms a b by (simp add: sendMessage_def Let_def split: option.splits)
qed

lemma quiet_sendError: "quiet s s1 \<Longrightarrow> quiet s (snd (sendError i code msg details s1))"
  by (simp add: sendError_def quiet_sendMessage)

lemma quiet_removeConnection:
  assumes "quiet s s1"
  shows "quiet s (snd (removeConnection i s1))"
proof -
  have "quiet s1 (snd (removeConnection i s1))"
    by (auto simp: quiet_def removeConnection_def Let_def emit_def delete_conv'
             split: option.splits if_splits)
  with assms show ?thesis
    by (rule quiet_trans)
qed

lemma quiet_ping_loop: "quiet s s1 \<Longrightarrow> quiet s (ping_loop now ids s1)"
  by (induction ids arbitrary: s1)
     (auto split: option.splits intro: quiet_removeConnection quiet_sendMessage)

lemma quiet_broadcast_loop:
  "quiet s s1 \<Longrightarrow> quiet s (snd (broadcast_loop type data filt ids n s1))"
proof (induction ids arbitrary: s1 n)
  case Nil
  then show ?case by simp
next
  case (Cons i ids)
  have sent: "quiet s (snd (sendMessage i type data s1))"
    using Cons.prems by (rule quiet_sendMessage)
  show ?case
  proof (cases "sendMessage i type data s1")
    case (Pair ok s2)
    with sent have "quiet s s2"
      by simp
    then show ?thesis
      using Pair Cons.prems Cons.IH by (cases ok) (auto split: option.splits)
  qed
qed

lemma quiet_closeAll_loop: "quiet s s1 \<Longrightarrow> quiet s (closeAll_loop ids s1)"
  by (induction ids arbitrary: s1) (auto intro: quiet_removeConnection)

lemma quiet_callPluginMethod:
  "quiet s s1 \<Longrightarrow> quiet s (snd (callPluginMethod m args s1))"
  by (simp add: callPluginMethod_eq quiet_def)

lemma quiet_processMessage:
  "quiet s s1 \<Longrightarrow> quiet s (snd (processMessage message ctx s1))"
  by (auto simp: processMessage_def run_handler_def Let_def
           split: jsval.splits option.splits completion.splits
           intro!: quiet_emit)

lemma quiet_server_handleMessage:
  assumes "quiet s s0"
  shows "quiet s (server_handleMessage i message s0)"
proof -
  let ?ctx = "JObj [(''connectionId'', JStr i), (''timestamp'', JNum (clock s0))]"
  let ?s1 = "snd (callPluginMethod ''handleMessage'' [message, ?ctx] s0)"
  let ?s2 = "snd (processMessage message ?ctx ?s1)"
  have q2: "quiet s ?s2"
    by (intro quiet_processMessage quiet_callPluginMethod assms)
  have q3: "quiet s (snd (sendMessage i t d ?s2))" for t d
    using q2 by (rule quiet_sendMessage)
  show ?thesis
    using q2 q3 assms
    by (auto simp: server_handleMessage_def Let_def split_beta
             intro!: quiet_emit quiet_callPluginMethod)
qed

lemma quiet_handleClientRegistration:
  assumes "quiet s s1"
  shows "quiet s (handleClientRegistration i message s1)"
proof -
  let ?s2 = "update_connection i
               (\<lambda>c. c\<lparr>clientInfo := assign_all (clientInfo c)
                        (own_entries (js_or (get_prop message ''data'') (JObj [])))\<rparr>) s1"
  have "quiet s ?s2"
    using assms by (rule quiet_update_connection) simp
  then have "quiet s (snd (sendMessage i t d ?s2))" for t d
    by (rule quiet_sendMessage)
  then show ?thesis
    by (auto simp: handleClientRegistration_def Let_def intro!: quiet_emit)
qed

subsection \<open>The effect of one step on a connection\<close>

lemma quiet_handleSystemMessage_other:
  assumes "get_prop message ''type'' \<noteq> JStr SYSTEM_AUTH"
  shows "quiet s (handleSystemMessage j message s)"
  using assms
  by (auto simp: handleSystemMessage_def Let_def
           intro!: quiet_sendMessage quiet_handleClientRegistration quiet_emit)

lemma quiet_handleAuthRequest:
  "quiet (update_connection j (\<lambda>c. c\<lparr>isAuthenticated := True\<rparr>) s) (handleAuthRequest j message s)"
  by (auto simp: handleAuthRequest_def Let_def intro!: quiet_emit quiet_sendMessage)

lemma cm_handleMessage_effect:
  assumes "cm_handleMessage P j data s0 = Inr s'"
  shows "quiet s0 s' \<or>
         (get_prop (parseMessage MessageProtocol P data) ''type'' = JStr SYSTEM_AUTH \<and>
          quiet (update_connection j (\<lambda>c. c\<lparr>isAuthenticated := True\<rparr>) s0) s')"
proof (cases "map_of (connections s0) j")
  case None
  then show ?thesis
    using assms by (simp add: cm_handleMessage_def)
next
  case (Some c)
  let ?m = "parseMessage MessageProtocol P data"
  show ?thesis
  proof (cases "get_prop ?m ''type'' = JStr SYSTEM_AUTH")
    case True
    then have "truthy ?m"
      by (cases ?m) simp_all
    then have "s' = handleAuthRequest j ?m s0"
      using assms Some True system_auth_cases
      by (simp add: cm_handleMessage_def handleSystemMessage_def)
    then show ?thesis
      using True quiet_handleAuthRequest by simp
  next
    case False
    have "quiet s0 s'"
      using assms Some False
      by (auto simp: cm_handleMessage_def Let_def
               split: if_splits jsval.splits
               intro!: quiet_count_error quiet_sendError quiet_handleSystemMessage_other
                       quiet_server_handleMessage quiet_emit)
    then show ?thesis ..
  qed
qed

text \<open>What one step may do to a connection.\<close>

lemma quiet_step_effect:
  assumes "quiet s s'" and "map_of (connections s') i = Some c'"
  shows "\<exists>c. map_of (connections s) i = Some c \<and> isAuthenticated c' = isAuthenticated c \<and>
             (lastActivity c' \<noteq> lastActivity c \<longrightarrow>
                lastActivity c' = clock s \<and> messagesSent (stats c) < messagesSent (stats c'))"
  using assms unfolding quiet_def by blast

lemma handleConnection_effect:
  assumes "newId \<notin> fst ` set (connections s)"
    and "map_of (connections (handleConnection ws req newId s)) i = Some c'"
  shows "(i = newId \<and> map_of (connections s) i = None \<and> isAuthenticated c' = (\<not> authRequired s)) \<or>
         (i \<noteq> newId \<and> map_of (connections s) i = Some c')"
proof -
  let ?peer = "\<lparr>info_ipAddress = remoteAddress req, info_userAgent = user_agent req,
                info_req = Some req\<rparr>"
  have absent: "map_of (connections s) newId = None"
    using assms(1) by (simp add: map_of_eq_None_iff)
  show ?thesis
  proof (cases "int (length (connections s)) \<ge> maxConnections s")
    case True
    then have "connections (handleConnection ws req newId s) = connections s"
      by (simp add: handleConnection_def addConnection_def Let_def)
    then show ?thesis
      using assms(2) absent by auto
  next
    case False
    obtain s1 where s1: "addConnection ws ?peer newId s = (Some newId, s1)"
      and new: "\<exists>c. map_of (connections s1) newId = Some c \<and> isAuthenticated c = (\<not> authRequired s)"
      and old: "\<And>k. k \<noteq> newId \<Longrightarrow> map_of (connections s1) k = map_of (connections s) k"
      using False by (simp add: addConnection_def Let_def update_conv')
    have "handleConnection ws req newId s = s1 \<or>
          (\<exists>t d. handleConnection ws req newId s = snd (sendMessage newId t d s1))"
      using s1 by (auto simp: handleConnection_def)
    then have q: "quiet s1 (handleConnection ws req newId s)"
      by (auto intro: quiet_sendMessage [OF quiet_refl])
    from quiet_step_effect [OF q assms(2)]
    obtain c1 where c1: "map_of (connections s1) i = Some c1" "isAuthenticated c' = isAuthenticated c1"
      by blast
    have other: "map_of (connections (handleConnection ws req newId s)) i = map_of (connections s) i"
      if "i \<noteq> newId"
    proof -
      have "handleConnection ws req newId s = s1 \<or>
          (\<exists>t d. handleConnection ws req newId s = snd (sendMessage newId t d s1))"
        using s1 by (auto simp: handleConnection_def)
      then show ?thesis
        using that old by (auto simp: sendMessage_other)
    qed
    show ?thesis
    proof (cases "i = newId")
      case True
      then show ?thesis
        using new c1 absent by auto
    next
      case False
      then show ?thesis
        using other assms(2) by simp
    qed
  qed
qed

lemma on_message_effect:
  assumes "on_message P j data s = Inr s'" and "map_of (connections s') i = Some c'"
  shows "\<exists>c. map_of (connections s) i = Some c \<and>
           (isAuthenticated c \<longrightarrow> isAuthenticated c') \<and>
           (\<not> isAuthenticated c \<and> isAuthenticated c' \<longrightarrow>
              i = j \<and> get_prop (parseMessage MessageProtocol P data) ''type'' = JStr SYSTEM_AUTH) \<and>
           (lastActivity c' \<noteq> lastActivity c \<longrightarrow>
              lastActivity c' = clock s \<and>
              (i = j \<or> messagesSent (stats c) < messagesSent (stats c')))"
proof -
  let ?touch = "\<lambda>c. c\<lparr>lastActivity := clock s,
                 stats := (stats c)\<lparr>messagesReceived := messagesReceived (stats c) + 1\<rparr>\<rparr>"
  let ?s0 = "update_connection j ?touch s"
  let ?s1 = "update_connection j (\<lambda>c. c\<lparr>isAuthenticated := True\<rparr>) ?s0"
  have run: "cm_handleMessage P j data ?s0 = Inr s'"
    using assms(1) by (simp add: on_message_def)
  from cm_handleMessage_effect [OF run]
  consider (plain) "quiet ?s0 s'"
    | (auth) "get_prop (parseMessage MessageProtocol P data) ''type'' = JStr SYSTEM_AUTH"
             "quiet ?s1 s'"
    by blast
  then show ?thesis
  proof cases
    case plain
    from quiet_step_effect [OF plain assms(2)]
    obtain c0 where c0: "map_of (connections ?s0) i = Some c0"
      "isAuthenticated c' = isAuthenticated c0"
      "lastActivity c' \<noteq> lastActivity c0 \<longrightarrow>
         lastActivity c' = clock ?s0 \<and> messagesSent (stats c0) < messagesSent (stats c')"
      by blast
    then show ?thesis
      by (auto simp: map_of_update_connection split: if_splits)
  next
    case auth
    from quiet_step_effect [OF auth(2) assms(2)]
    obtain c1 where c1: "map_of (connections ?s1) i = Some c1"
      "isAuthenticated c' = isAuthenticated c1"
      "lastActivity c' \<noteq> lastActivity c1 \<longrightarrow>
         lastActivity c' = clock ?s1 \<and> messagesSent (stats c1) < messagesSent (stats c')"
      by blast
    then show ?thesis
      using auth(1) by (auto simp: map_of_update_connection split: if_splits)
  qed
qed

lemma step_authRequired:
  assumes "step P a s = Inr s'"
  shows "authRequired s' = authRequired s"
proof (cases a)
  case (Accept ws req newId)
  then show ?thesis
    using assms
    by (auto simp: handleConnection_def addConnection_def Let_def split: if_splits)
next
  case (Receive j data)
  then have "cm_handleMessage P j data (update_connection j
               (\<lambda>c. c\<lparr>lastActivity := clock s,
                 stats := (stats c)\<lparr>messagesReceived := messagesReceived (stats c) + 1\<rparr>\<rparr>) s) = Inr s'"
    using assms by (simp add: on_message_def)
  from cm_handleMessage_effect [OF this] show ?thesis
    by (auto simp: quiet_def)
next
  case (Closed j)
  then show ?thesis
    using assms by (auto simp: on_close_def)
next
  case (Errored j)
  then show ?thesis
    using assms by (auto simp: on_error_def)
next
  case Sweep
  then show ?thesis
    using assms by (auto simp: pingConnections_def)
next
  case (Send j t d)
  then show ?thesis
    using assms by auto
next
  case (Broadcast t d f)
  have "quiet s (snd (broadcastMessage t d f s))"
    by (simp add: broadcastMessage_def quiet_broadcast_loop)
  then show ?thesis
    using assms Broadcast by (auto simp: quiet_def)
next
  case (Remove j)
  then show ?thesis
    using assms by auto
next
  case CloseAll
  have "quiet s (closeAllConnections s)"
    by (simp add: closeAllConnections_def quiet_closeAll_loop)
  then show ?thesis
    using assms CloseAll by (auto simp: quiet_def)
next
  case (Tick d)
  then show ?thesis
    using assms by auto
qed

lemma step_effect:
  assumes "fresh a s" and "step P a s = Inr s'" and "map_of (connections s') i = Some c'"
  shows "(map_of (connections s) i = None \<and> (\<exists>ws req. a = Accept ws req i) \<and>
          isAuthenticated c' = (\<not> authRequired s)) \<or>
         (\<exists>c. map_of (connections s) i = Some c \<and>
            (isAuthenticated c \<longrightarrow> isAuthenticated c') \<and>
            (\<not> isAuthenticated c \<and> isAuthenticated c' \<longrightarrow>
               (\<exists>data. a = Receive i data \<and>
                  get_prop (parseMessage MessageProtocol P data) ''type'' = JStr SYSTEM_AUTH)) \<and>
            (lastActivity c' \<noteq> lastActivity c \<longrightarrow>
               lastActivity c' = clock s \<and>
               ((\<exists>data. a = Receive i data) \<or> messagesSent (stats c) < messagesSent (stats c'))))"
proof -
  have quiet_case: ?thesis if "quiet s s'"
    using quiet_step_effect [OF that assms(3)] by auto
  show ?thesis
  proof (cases a)
    case (Accept ws req newId)
    then have f: "newId \<notin> fst ` set (connections s)"
      and eq: "s' = handleConnection ws req newId s"
      using assms by auto
    from handleConnection_effect [OF f, of ws req i c'] assms(3) eq Accept show ?thesis
      by auto
  next
    case (Receive j data)
    then have "on_message P j data s = Inr s'"
      using assms by simp
    from on_message_effect [OF this assms(3)] Receive show ?thesis
      by auto
  next
    case (Closed j)
    then show ?thesis
      using assms by (intro quiet_case) (auto simp: on_close_def intro: quiet_removeConnection)
  next
    case (Errored j)
    then show ?thesis
      using assms
      by (intro quiet_case) (auto simp: on_error_def intro!: quiet_removeConnection quiet_count_error)
  next
    case Sweep
    then show ?thesis
      using assms by (intro quiet_case) (auto simp: pingConnections_def intro: quiet_ping_loop)
  next
    case (Send j t d)
    then show ?thesis
      using assms by (intro quiet_case) (auto intro: quiet_sendMessage)
  next
    case (Broadcast t d f)
    then show ?thesis
      using assms
      by (intro quiet_case) (auto simp: broadcastMessage_def intro: quiet_broadcast_loop)
  next
    case (Remove j)
    then show ?thesis
      using assms by (intro quiet_case) (auto intro: quiet_removeConnection)
  next
    case CloseAll
    then show ?thesis
      using assms
      by (intro quiet_case) (auto simp: closeAllConnections_def intro: quiet_closeAll_loop)
  next
    case (Tick d)
    then show ?thesis
      using assms by auto
  qed
qed

text \<open>Where authentication is not required, every connection is authenticated.\<close>

lemma reachable_authenticated:
  assumes "reachable P s"
  shows "\<not> authRequired s \<longrightarrow> (\<forall>i c. map_of (connections s) i = Some c \<longrightarrow> isAuthenticated c)"
  using assms
proof (induction rule: reachable.induct)
  case (reach_start s)
  then show ?case by simp
next
  case (reach_step s a s')
  show ?case
  proof (intro impI allI)
    fix i c'
    assume open_server: "\<not> authRequired s'" and live: "map_of (connections s') i = Some c'"
    have same: "authRequired s' = authRequired s"
      using reach_step.hyps(3) by (rule step_authRequired)
    from step_effect [OF reach_step.hyps(2,3) live] reach_step.IH open_server same
    show "isAuthenticated c'"
      by auto
  qed
qed

text \<open>
  C3, as the code has it. In a server that started without connections and generates fresh
  ids, across any one step: a connection that is authenticated stays authenticated; a
  connection goes from unauthenticated to authenticated only when the step is an inbound
  message of that connection whose envelope has the type \<^verbatim>\<open>system.auth\<close>, and only in
  a server that requires authentication; and a connection that appears was accepted in
  this step and starts authenticated exactly when authentication is not required.
\<close>

theorem C3_authentication_transitions:
  assumes "reachable P s" and "fresh a s" and "step P a s = Inr s'"
  shows "(\<forall>i c c'. map_of (connections s) i = Some c \<and> map_of (connections s') i = Some c' \<longrightarrow>
            (isAuthenticated c \<longrightarrow> isAuthenticated c') \<and>
            (\<not> isAuthenticated c \<and> isAuthenticated c' \<longrightarrow>
               authRequired s \<and>
               (\<exists>data. a = Receive i data \<and>
                  get_prop (parseMessage MessageProtocol P data) ''type'' = JStr SYSTEM_AUTH))) \<and>
         (\<forall>i c'. map_of (connections s) i = None \<and> map_of (connections s') i = Some c' \<longrightarrow>
            (\<exists>ws req. a = Accept ws req i) \<and> isAuthenticated c' = (\<not> authRequired s))"
proof -
  have old: "(isAuthenticated c \<longrightarrow> isAuthenticated c') \<and>
            (\<not> isAuthenticated c \<and> isAuthenticated c' \<longrightarrow>
               authRequired s \<and>
               (\<exists>data. a = Receive i data \<and>
                  get_prop (parseMessage MessageProtocol P data) ''type'' = JStr SYSTEM_AUTH))"
    if "map_of (connections s) i = Some c" and "map_of (connections s') i = Some c'" for i c c'
    using step_effect [OF assms(2,3) that(2)] that(1) reachable_authenticated [OF assms(1)]
    by auto
  have new: "(\<exists>ws req. a = Accept ws req i) \<and> isAuthenticated c' = (\<not> authRequired s)"
    if "map_of (connections s) i = None" and "map_of (connections s') i = Some c'" for i c'
    using step_effect [OF assms(2,3) that(2)] that(1) by auto
  from old new show ?thesis
    by blast
qed


text \<open>
  C2, as the code has it. Let a connection be live when the sweep starts. If it has been
  idle for longer than the timeout, the sweep removes it. Otherwise the sweep sends it a
  system ping through \<open>sendMessage\<close>, and the connection's \<open>lastActivity\<close> is the
  current time afterwards when the transport write succeeded, and unchanged when the write
  threw. Across any one step of the server, the \<open>lastActivity\<close> of a connection changes
  only to the current time, and only when the step is an inbound message of that
  connection or a send to it succeeded (its sent counter went up).
\<close>

theorem C2_ping_refreshes_on_success:
  assumes "distinct (map fst (connections s))" and "map_of (connections s) i = Some c"
  shows "(clock s - lastActivity c > idleTimeout s \<longrightarrow>
            map_of (connections (pingConnections s)) i = None) \<and>
         (\<not> clock s - lastActivity c > idleTimeout s \<longrightarrow>
            (\<exists>c'. map_of (connections (pingConnections s)) i = Some c' \<and>
                  lastActivity c' = (if send_throws (socket c) then lastActivity c else clock s))) \<and>
         (\<forall>P a s' c'. fresh a s \<and> step P a s = Inr s' \<and> map_of (connections s') i = Some c' \<and>
              lastActivity c' \<noteq> lastActivity c \<longrightarrow>
              lastActivity c' = clock s \<and>
              ((\<exists>data. a = Receive i data) \<or> messagesSent (stats c) < messagesSent (stats c')))"
proof -
  have "i \<in> set (map fst (connections s))"
    using assms(2) by (metis map_of_eq_None_iff option.distinct(1) set_map)
  from ping_loop_visits [OF assms(1) this assms(2), of "clock s"]
  have sweep: "map_of (connections (pingConnections s)) i =
           (if clock s - lastActivity c > idleTimeout s then None
            else Some (if send_throws (socket c) then count_error c
                       else c\<lparr>lastActivity := clock s,
                              stats := (stats c)\<lparr>messagesSent := messagesSent (stats c) + 1\<rparr>\<rparr>))"
    by (simp add: pingConnections_def)
  have frame: "lastActivity c' = clock s \<and>
              ((\<exists>data. a = Receive i data) \<or> messagesSent (stats c) < messagesSent (stats c'))"
    if "fresh a s" and "step P a s = Inr s'" and "map_of (connections s') i = Some c'"
      and "lastActivity c' \<noteq> lastActivity c" for P a s' c'
    using step_effect [OF that(1,2,3)] assms(2) that(4) by auto
  have gone: "clock s - lastActivity c > idleTimeout s \<longrightarrow>
            map_of (connections (pingConnections s)) i = None"
    and pinged: "\<not> clock s - lastActivity c > idleTimeout s \<longrightarrow>
            (\<exists>c'. map_of (connections (pingConnections s)) i = Some c' \<and>
                  lastActivity c' = (if send_throws (socket c) then lastActivity c else clock s))"
    using sweep by (simp_all add: count_error_def)
  from gone pinged frame show ?thesis
    by blast
qed

subsection \<open>Concrete runs of the sweep and of authentication\<close>

text \<open>
  C2 as stated fails: a sweep at time 1000 over a connection last active at time 0 and not
  timed out sends the ping and leaves the connection's \<open>lastActivity\<close> at 1000.
\<close>

theorem C2_ping_changes_lastActivity_counterexample:
  "map_option lastActivity (map_of (connections ex_server) ''c1'') = Some 0 \<and>
   map_option lastActivity (map_of (connections (pingConnections ex_server)) ''c1'') = Some 1000 \<and>
   trace (pingConnections ex_server) =
     [SocketSend 1 (serializeMessage
        (createMessage MessageProtocol 1000 (JStr SYSTEM_PING)
           (JObj [(''timestamp'', JNum 1000)]) (JObj [])))]"
  by (simp add: pingConnections_def sendMessage_def serializeMessage_def JSON_stringify_def
        createMessage_def assign_all_def emit_def update_connection_def Let_def
        default_object_def ex_defs)

lemma ex_server_facts:
  "distinct (map fst (connections ex_server))"
  "map_of (connections ex_server) ''c1'' = Some ex_connection"
  "clock ex_server = 1000" "idleTimeout ex_server = 300000"
  "lastActivity ex_connection = 0" "\<not> send_throws (socket ex_connection)"
  by (simp_all add: ex_defs)

lemma ex_late_server_facts:
  "distinct (map fst (connections ex_late_server))"
  "map_of (connections ex_late_server) ''c1'' = Some ex_connection"
  "clock ex_late_server = 400000" "idleTimeout ex_late_server = 300000"
  by (simp_all add: ex_late_server_def ex_defs)

theorem C2_ping_refreshes_on_success_witness:
  "distinct (map fst (connections ex_server)) \<and>
   map_of (connections ex_server) ''c1'' = Some ex_connection \<and>
   \<not> clock ex_server - lastActivity ex_connection > idleTimeout ex_server \<and>
   (\<exists>c'. map_of (connections (pingConnections ex_server)) ''c1'' = Some c' \<and>
         lastActivity c' = clock ex_server) \<and>
   distinct (map fst (connections ex_late_server)) \<and>
   map_of (connections ex_late_server) ''c1'' = Some ex_connection \<and>
   clock ex_late_server - lastActivity ex_connection > idleTimeout ex_late_server \<and>
   map_of (connections (pingConnections ex_late_server)) ''c1'' = None \<and>
   fresh Sweep ex_server \<and>
   step ex_parse Sweep ex_server = Inr (pingConnections ex_server) \<and>
   (\<exists>c'. map_of (connections (pingConnections ex_server)) ''c1'' = Some c' \<and>
         lastActivity c' \<noteq> lastActivity ex_connection \<and>
         lastActivity c' = clock ex_server \<and>
         messagesSent (stats ex_connection) < messagesSent (stats c'))"
proof -
  note now = C2_ping_refreshes_on_success [OF ex_server_facts(1,2)]
  note late = C2_ping_refreshes_on_success [OF ex_late_server_facts(1,2)]
  have alive: "\<not> clock ex_server - lastActivity ex_connection > idleTimeout ex_server"
    by (simp add: ex_server_facts)
  have idle: "clock ex_late_server - lastActivity ex_connection > idleTimeout ex_late_server"
    by (simp add: ex_late_server_facts ex_server_facts)
  have st: "fresh Sweep ex_server" "step ex_parse Sweep ex_server = Inr (pingConnections ex_server)"
    by simp_all
  have a: "\<exists>c'. map_of (connections (pingConnections ex_server)) ''c1'' = Some c' \<and>
         lastActivity c' = clock ex_server"
    using now alive ex_server_facts(6) by simp
  have b: "map_of (connections (pingConnections ex_late_server)) ''c1'' = None"
    using late idle by blast
  from a obtain c' where c': "map_of (connections (pingConnections ex_server)) ''c1'' = Some c'"
    "lastActivity c' = clock ex_server"
    by blast
  have changed: "lastActivity c' \<noteq> lastActivity ex_connection"
    using c'(2) by (simp add: ex_server_facts)
  have "messagesSent (stats ex_connection) < messagesSent (stats c')"
    using now st c'(1) changed by fastforce
  with c' changed
  have c: "\<exists>c'. map_of (connections (pingConnections ex_server)) ''c1'' = Some c' \<and>
         lastActivity c' \<noteq> lastActivity ex_connection \<and>
         lastActivity c' = clock ex_server \<and>
         messagesSent (stats ex_connection) < messagesSent (stats c')"
    by blast
  from a b c alive idle st ex_server_facts(1,2) ex_late_server_facts(1,2) show ?thesis
    by blast
qed

text \<open>
  C3 as stated fails: in a server that does not require authentication, a freshly accepted
  connection is authenticated.
\<close>

theorem C3_fresh_connection_authenticated_counterexample:
  "\<not> authRequired ex_open_server \<and>
   map_option isAuthenticated
     (map_of (connections (snd (addConnection ex_socket ex_info ''c1'' ex_open_server))) ''c1'')
     = Some True"
  by (simp add: addConnection_def Let_def emit_def ex_open_server_def ex_empty_server_def ex_defs)

lemma ex_accepted_connection:
  "\<exists>c. map_of (connections ex_accepted_server) ''c1'' = Some c \<and> \<not> isAuthenticated c"
  by (simp add: ex_accepted_server_def handleConnection_def addConnection_def Let_def
        sendMessage_def serializeMessage_def JSON_stringify_def createMessage_def
        assign_all_def emit_def update_connection_def default_object_def
        ex_empty_server_def ex_defs)

lemma ex_accepted_reachable: "reachable ex_parse ex_accepted_server"
proof -
  have "reachable ex_parse ex_empty_server"
    by (rule reach_start) (simp add: ex_empty_server_def)
  moreover have "fresh (Accept ex_socket ex_request ''c1'') ex_empty_server"
    by (simp add: ex_empty_server_def)
  moreover have "step ex_parse (Accept ex_socket ex_request ''c1'') ex_empty_server
                   = Inr ex_accepted_server"
    by (simp add: ex_accepted_server_def)
  ultimately show ?thesis
    by (rule reach_step)
qed

lemma handleAuthRequest_authenticates:
  assumes "map_of (connections s) i = Some c"
  shows "\<exists>c'. map_of (connections (handleAuthRequest i m s)) i = Some c' \<and> isAuthenticated c'"
proof -
  let ?s1 = "update_connection i (\<lambda>c. c\<lparr>isAuthenticated := True\<rparr>) s"
  let ?data = "JObj [(''success'', JBool True), (''timestamp'', JNum (clock s)),
                     (''expiresAt'', JNum (clock s + tokenExpiration s))]"
  have live1: "map_of (connections ?s1) i = Some (c\<lparr>isAuthenticated := True\<rparr>)"
    using assms by (simp add: map_of_update_connection)
  have "\<not> has_bigint (JStr SYSTEM_AUTH_RESPONSE)" "\<not> has_bigint ?data"
    by simp_all
  from sendMessage_live [OF live1 this] live1 show ?thesis
    by (auto simp: handleAuthRequest_def Let_def map_of_update_connection count_error_def)
qed

lemma ex_auth_step:
  "\<exists>s' c c'. step ex_parse (Receive ''c1'' (RawText (text_of ex_auth))) ex_accepted_server = Inr s' \<and>
       map_of (connections ex_accepted_server) ''c1'' = Some c \<and>
       map_of (connections s') ''c1'' = Some c' \<and> \<not> isAuthenticated c \<and> isAuthenticated c'"
proof -
  let ?srv = ex_accepted_server
  let ?touch = "\<lambda>c. c\<lparr>lastActivity := clock ?srv,
                 stats := (stats c)\<lparr>messagesReceived := messagesReceived (stats c) + 1\<rparr>\<rparr>"
  let ?touched = "update_connection ''c1'' ?touch ?srv"
  from ex_accepted_connection obtain c
    where c: "map_of (connections ?srv) ''c1'' = Some c" "\<not> isAuthenticated c"
    by blast
  have live0: "map_of (connections ?touched) ''c1'' = Some (?touch c)"
    using c(1) by (simp add: map_of_update_connection)
  have m: "get_prop ex_auth ''type'' = JStr SYSTEM_AUTH" "truthy ex_auth"
    by (simp_all add: ex_auth_def SYSTEM_AUTH_def)
  have "step ex_parse (Receive ''c1'' (RawText (text_of ex_auth))) ?srv
          = Inr (handleAuthRequest ''c1'' ex_auth ?touched)"
    using live0 m system_auth_cases
    by (simp add: on_message_def cm_handleMessage_def ex_envelopes handleSystemMessage_def)
  moreover from handleAuthRequest_authenticates [OF live0]
  obtain c' where "map_of (connections (handleAuthRequest ''c1'' ex_auth ?touched)) ''c1'' = Some c'"
    "isAuthenticated c'"
    by blast
  ultimately show ?thesis
    using c by blast
qed

theorem C3_authentication_transitions_witness:
  "reachable ex_parse ex_empty_server \<and>
   fresh (Accept ex_socket ex_request ''c1'') ex_empty_server \<and>
   step ex_parse (Accept ex_socket ex_request ''c1'') ex_empty_server = Inr ex_accepted_server \<and>
   map_of (connections ex_empty_server) ''c1'' = None \<and>
   (\<exists>c'. map_of (connections ex_accepted_server) ''c1'' = Some c' \<and>
         isAuthenticated c' = (\<not> authRequired ex_empty_server)) \<and>
   reachable ex_parse ex_accepted_server \<and>
   fresh (Receive ''c1'' (RawText (text_of ex_auth))) ex_accepted_server \<and>
   (\<exists>s' c c'. step ex_parse (Receive ''c1'' (RawText (text_of ex_auth))) ex_accepted_server = Inr s' \<and>
       map_of (connections ex_accepted_server) ''c1'' = Some c \<and>
       map_of (connections s') ''c1'' = Some c' \<and>
       \<not> isAuthenticated c \<and> isAuthenticated c' \<and> authRequired ex_accepted_server \<and>
       get_prop (parseMessage MessageProtocol ex_parse (RawText (text_of ex_auth))) ''type''
         = JStr SYSTEM_AUTH)"
proof -
  have r0: "reachable ex_parse ex_empty_server"
    by (rule reach_start) (simp add: ex_empty_server_def)
  have f0: "fresh (Accept ex_socket ex_request ''c1'') ex_empty_server"
    by (simp add: ex_empty_server_def)
  have s0: "step ex_parse (Accept ex_socket ex_request ''c1'') ex_empty_server
              = Inr ex_accepted_server"
    by (simp add: ex_accepted_server_def)
  have n0: "map_of (connections ex_empty_server) ''c1'' = None"
    by (simp add: ex_empty_server_def)
  have f1: "fresh (Receive ''c1'' (RawText (text_of ex_auth))) ex_accepted_server"
    by simp
  from ex_accepted_connection obtain c0
    where c0: "map_of (connections ex_accepted_server) ''c1'' = Some c0"
    by blast
  have "isAuthenticated c0 = (\<not> authRequired ex_empty_server)"
    using C3_authentication_transitions [OF r0 f0 s0] n0 c0 by blast
  with c0
  have a: "\<exists>c'. map_of (connections ex_accepted_server) ''c1'' = Some c' \<and>
         isAuthenticated c' = (\<not> authRequired ex_empty_server)"
    by blast
  from ex_auth_step obtain s' c c'
    where st: "step ex_parse (Receive ''c1'' (RawText (text_of ex_auth))) ex_accepted_server = Inr s'"
      and cs: "map_of (connections ex_accepted_server) ''c1'' = Some c"
        "map_of (connections s') ''c1'' = Some c'" "\<not> isAuthenticated c" "isAuthenticated c'"
    by blast
  have "authRequired ex_accepted_server \<and>
        (\<exists>data. Receive ''c1'' (RawText (text_of ex_auth)) = Receive ''c1'' data \<and>
           get_prop (parseMessage MessageProtocol ex_parse data) ''type'' = JStr SYSTEM_AUTH)"
    using C3_authentication_transitions [OF ex_accepted_reachable f1 st] cs by blast
  then have b: "authRequired ex_accepted_server \<and>
       get_prop (parseMessage MessageProtocol ex_parse (RawText (text_of ex_auth))) ''type''
         = JStr SYSTEM_AUTH"
    by simp
  from r0 f0 s0 n0 a ex_accepted_reachable f1 st cs b show ?thesis
    by blast
qed

subsection \<open>Decoding a serialized envelope\<close>


lemma parse_back_text: "json_text v = Some t \<Longrightarrow> parse_back v t = Some v"
  by (simp add: parse_back_def)



subsection \<open>Headers of a forwarded request\<close>



text \<open>The two routes are what \<open>registerRoute\<close> makes of their configurations.\<close>

lemma ex_routes_registered:
  "registerRoute 30000 ''mock-ai'' (Some ex_mock_config) [] = Inr [hd ex_routes]"
  "registerRoute 30000 ''secured'' (Some ex_secured_config) [hd ex_routes] = Inr ex_routes"
  by (simp_all add: registerRoute_def ex_mock_config_def ex_secured_config_def ex_routes_def)


end
